theory Spec2Isabelle
  imports
    Main
    "HOL-Library.Multiset"
    "HOL-Library.Char_ord"
    "HOL-Library.List_Lexorder"
    "HOL-Library.Product_Lexorder"
begin

section \<open>The box-opening game of \<^verbatim>\<open>wib_bot.py\<close>: a shallow embedding\<close>

text \<open>
  The program keeps its whole state in one SQLite database and every command is a short
  read-modify-write against it. The embedding fixes one session key (one
  \<^verbatim>\<open>(guild_id, channel_id)\<close> pair): a table keyed by the session key and a box id
  becomes a map from box ids to rows, a table with more rows per box becomes a list of rows
  in the order a \<^verbatim>\<open>SELECT\<close> without \<^verbatim>\<open>ORDER BY\<close> returns them. Every command takes the
  database and returns a reply together with the database it leaves behind; a command that
  returns before its first write, or raises before \<^verbatim>\<open>commit\<close>, returns the database it got.

  Python integers are \<open>int\<close>. Text is \<open>string\<close>, read as ASCII.
\<close>

subsection \<open>Text utilities\<close>

text \<open>\<^verbatim>\<open>str.isspace\<close> on ASCII: tab, line feed, vertical tab, form feed, carriage
  return, the four separators 28..31 and the blank.\<close>

definition isspace :: "char \<Rightarrow> bool" where
  "isspace c = ((of_char c :: nat) \<in> {9, 10, 11, 12, 13, 28, 29, 30, 31, 32})"

definition strip :: "string \<Rightarrow> string" where
  "strip w = rev (dropWhile isspace (rev (dropWhile isspace w)))"

definition upper_char :: "char \<Rightarrow> char" where
  "upper_char c =
     (let n = (of_char c :: nat) in if 97 \<le> n \<and> n \<le> 122 then char_of (n - 32) else c)"

definition upper :: "string \<Rightarrow> string" where
  "upper w = map upper_char w"

text \<open>The character class \<^verbatim>\<open>[A-Z0-9 ]\<close>.\<close>

definition word_char :: "char \<Rightarrow> bool" where
  "word_char c =
     (let n = (of_char c :: nat) in (65 \<le> n \<and> n \<le> 90) \<or> (48 \<le> n \<and> n \<le> 57) \<or> n = 32)"

text \<open>\<^verbatim>\<open>re.sub(r"\s+", " ", w)\<close>: every maximal run of white space becomes one blank.\<close>

function collapse_ws :: "string \<Rightarrow> string" where
  "collapse_ws [] = []"
| "collapse_ws (c # cs) =
     (if isspace c then CHR '' '' # collapse_ws (dropWhile isspace cs)
      else c # collapse_ws cs)"
  by pat_completeness auto
termination
  by (relation "measure length") (auto simp: length_dropWhile_le less_Suc_eq_le)

text \<open>
  \<^verbatim>\<open>
  def norm_word(w: str) -> str:
      w = (w or "").strip().upper()
      w = re.sub(r"[^A-Z0-9 ]+", "", w)
      w = re.sub(r"\s+", " ", w).strip()
      return w
  \<close>
\<close>

definition norm_word :: "string \<Rightarrow> string" where
  "norm_word w = strip (collapse_ws (filter word_char (upper (strip w))))"

subsection \<open>The tables\<close>

text \<open>The tags the program writes into card records, into \<^verbatim>\<open>pending_action\<close> and into
  the wildcard's list of effects.\<close>

datatype tag = PIECE | PASS | STEAL | DONATE | WILDCARD | BONUS_TURN

datatype word_ref = W1 | W2 | W3

record card =
  ctype :: tag
  card_reveal :: "word_ref option"

record session =
  session_seed :: int
  is_locked :: bool
  current_box :: int
  opened_boxes_count :: int
  eliminations_unlocked :: bool

record participant =
  display_name :: string
  eliminated :: bool

record prize =
  title :: "string option"
  description :: "string option"

record ownership =
  owner_user_id :: int
  updated_at_ms :: int

record box_secret =
  phrase_w1 :: string
  phrase_w2 :: string
  phrase_w3 :: string
  deck_json :: "card list"
  revealed_json :: "nat set"

record trivia_round =
  q_text :: string
  answer_int :: int
  tr_is_active :: bool

record trivia_submission =
  ts_box_id :: int
  ts_user_id :: int
  value_int :: int
  ts_submitted_at_ms :: int

record order_round =
  or_slot_user_id :: int
  or_prompt :: string
  items_json :: "string list"
  correct_order_json :: "int list"
  or_is_active :: bool

record slot =
  slot_user_id :: "int option"
  turns_left :: int
  pending_action :: "tag option"
  pending_msg_id :: "int option"

record puzzle_attempt =
  pa_box_id :: int
  attempt_id :: int
  pa_user_id :: int
  g1 :: string
  g2 :: string
  g3 :: string
  pa_submitted_at_ms :: int
  checked :: bool
  score_positions :: int

record db =
  sessions :: "session option"
  participants :: "int \<rightharpoonup> participant"
  prizes :: "int \<rightharpoonup> prize"
  box_ownership :: "int \<rightharpoonup> ownership"
  box_secrets :: "int \<rightharpoonup> box_secret"
  trivia_rounds :: "int \<rightharpoonup> trivia_round"
  trivia_submissions :: "trivia_submission list"
  order_rounds :: "int \<rightharpoonup> order_round"
  slot_state :: "int \<rightharpoonup> slot"
  puzzle_attempts :: "puzzle_attempt list"

text \<open>The replies with which a command returns early, and the exceptions that end a
  command before its \<^verbatim>\<open>commit\<close>.\<close>

datatype error =
    HostPermissionRequired
  | OwnerPermissionRequired
  | NoSession
  | NoActiveLockedSession
  | NoActiveQuestion
  | NoActiveSlotHolder
  | OnlySlotHolderCanReveal
  | NoTurnsRemaining
  | SpecialActionPending
  | BoxDeckNotFound
  | CardAlreadyRevealed
  | InvalidOrder
  | NoActiveArrangeQuestion
  | OnlySlotHolderMayAnswer
  | OnlySlotHolderCanSubmit
  | BoxSecretNotFound
  | NoPendingPuzzleAttempts
  | BoxNotReady
  | PrizeModalSent
  | IndexError
  | TypeError

subsection \<open>Trivia resolution\<close>

text \<open>
  \<^verbatim>\<open>
  def compute_trivia_outcome(con, guild_id, channel_id, box_id, correct):
      subs = con.execute("SELECT user_id, value_int, submitted_at_ms FROM trivia_submissions
                          WHERE guild_id=? AND channel_id=? AND box_id=?", ...).fetchall()
      if not subs:
          return None
      exacts = [r for r in subs if int(r["value_int"]) == correct]
      if exacts:
          exacts.sort(key=lambda r: int(r["submitted_at_ms"]))
          top = exacts[0]
          return int(top["user_id"]), int(top["value_int"]), True
      scored = []
      for r in subs:
          diff = abs(int(r["value_int"]) - correct)
          scored.append((diff, int(r["submitted_at_ms"]), r))
      scored.sort(key=lambda t: (t[0], t[1]))
      top = scored[0][2]
      return int(top["user_id"]), int(top["value_int"]), False
  \<close>
  \<^verbatim>\<open>list.sort\<close> is stable, as \<open>sort_key\<close> is.
\<close>

definition box_submissions :: "db \<Rightarrow> int \<Rightarrow> trivia_submission list" where
  "box_submissions s box_id = filter (\<lambda>r. ts_box_id r = box_id) (trivia_submissions s)"

definition compute_trivia_outcome :: "db \<Rightarrow> int \<Rightarrow> int \<Rightarrow> (int \<times> int \<times> bool) option" where
  "compute_trivia_outcome s box_id correct =
     (let subs = box_submissions s box_id in
      if subs = [] then None
      else
        let exacts = filter (\<lambda>r. value_int r = correct) subs in
        if exacts \<noteq> [] then
          (case sort_key ts_submitted_at_ms exacts of
             top_row # _ \<Rightarrow> Some (ts_user_id top_row, value_int top_row, True)
           | [] \<Rightarrow> None)
        else
          let scored = map (\<lambda>r. (\<bar>value_int r - correct\<bar>, ts_submitted_at_ms r, r)) subs in
          (case sort_key (\<lambda>t. (fst t, fst (snd t))) scored of
             t # _ \<Rightarrow>
               (let top_row = snd (snd t) in Some (ts_user_id top_row, value_int top_row, False))
           | [] \<Rightarrow> None))"

text \<open>
  The command \<^verbatim>\<open>/wib reveal\<close>. The reply tells the channel the winner, or that there
  were no submissions (\<^verbatim>\<open>if not winner_id\<close>).
\<close>

datatype reveal_reply = NoSubmissions | Winner int int bool

definition reveal :: "db \<Rightarrow> bool \<Rightarrow> (error + reveal_reply) \<times> db" where
  "reveal s has_host_role =
     (if \<not> has_host_role then (Inl HostPermissionRequired, s)
      else case sessions s of
        None \<Rightarrow> (Inl NoActiveLockedSession, s)
      | Some sess \<Rightarrow>
          if \<not> is_locked sess then (Inl NoActiveLockedSession, s)
          else
            let box_id = current_box sess in
            case trivia_rounds s box_id of
              None \<Rightarrow> (Inl NoActiveQuestion, s)
            | Some tr \<Rightarrow>
                if \<not> tr_is_active tr then (Inl NoActiveQuestion, s)
                else
                  let correct = answer_int tr;
                      outcome = compute_trivia_outcome s box_id correct;
                      winner_id = map_option fst outcome;
                      s' = s\<lparr>trivia_rounds := (trivia_rounds s)(box_id \<mapsto> tr\<lparr>tr_is_active := False\<rparr>),
                             slot_state := (slot_state s)(box_id \<mapsto>
                               \<lparr>slot_user_id = winner_id, turns_left = 0,
                                pending_action = None, pending_msg_id = None\<rparr>)\<rparr>
                  in case outcome of
                       None \<Rightarrow> (Inr NoSubmissions, s')
                     | Some (w, v, exact) \<Rightarrow>
                         if w = 0 then (Inr NoSubmissions, s') else (Inr (Winner w v exact), s'))"

text \<open>The winner as sections 4.2 and 8 of the specification describe it: a row of the
  box's submissions that, when some submission is exact, is exact and no later than any
  exact one, and otherwise is nearest to the correct answer, no later than any equally near
  one.\<close>

definition spec_trivia_winner :: "trivia_submission list \<Rightarrow> int \<Rightarrow> trivia_submission \<Rightarrow> bool" where
  "spec_trivia_winner subs correct r =
     (r \<in> set subs \<and>
      (if \<exists>x\<in>set subs. value_int x = correct
       then value_int r = correct \<and>
            (\<forall>x\<in>set subs. value_int x = correct \<longrightarrow>
               ts_submitted_at_ms r \<le> ts_submitted_at_ms x)
       else \<forall>x\<in>set subs.
              \<bar>value_int r - correct\<bar> < \<bar>value_int x - correct\<bar> \<or>
              (\<bar>value_int r - correct\<bar> = \<bar>value_int x - correct\<bar> \<and>
               ts_submitted_at_ms r \<le> ts_submitted_at_ms x)))"

text \<open>The example of section 8: \<^verbatim>\<open>{A:50@t1, B:48@t0}\<close> with the correct answer 50, in a
  locked session at box 1 (A is user 11, B is user 12).\<close>

definition trivia_example :: db where
  "trivia_example =
     \<lparr>sessions = Some \<lparr>session_seed = 123456, is_locked = True, current_box = 1,
                        opened_boxes_count = 0, eliminations_unlocked = False\<rparr>,
      participants = Map.empty, prizes = Map.empty, box_ownership = Map.empty,
      box_secrets = Map.empty,
      trivia_rounds = [1 \<mapsto> \<lparr>q_text = ''q'', answer_int = 50, tr_is_active = True\<rparr>],
      trivia_submissions =
        [\<lparr>ts_box_id = 1, ts_user_id = 11, value_int = 50, ts_submitted_at_ms = 1\<rparr>,
         \<lparr>ts_box_id = 1, ts_user_id = 12, value_int = 48, ts_submitted_at_ms = 0\<rparr>],
      order_rounds = Map.empty, slot_state = Map.empty, puzzle_attempts = []\<rparr>"

subsection \<open>Revealing a card\<close>

text \<open>
  \<^verbatim>\<open>CardButton.callback\<close>, the handler of the button "Card idx+1". The buttons are made for
  \<^verbatim>\<open>idx in range(len(deck))\<close>, so the index is a natural number; \<^verbatim>\<open>deck[self.idx]\<close> beyond
  the deck raises \<^verbatim>\<open>IndexError\<close> before anything is written.

  The wildcard draws with \<^verbatim>\<open>random.choice(effects)\<close>, a call on the process-wide generator
  of module \<^verbatim>\<open>random\<close>: \<^verbatim>\<open>choice\<close> returns \<^verbatim>\<open>effects[i]\<close> for the index \<open>i\<close> that the
  generator draws below \<^verbatim>\<open>len(effects)\<close>. The state of that generator is no part of the
  database, so the index drawn is an input of the handler (\<open>draw\<close>).

  The messages sent to the channel are left out; the reply records what was revealed.
\<close>

datatype reveal_outcome =
    PieceRevealed string
  | SpecialRevealed tag
  | WildcardResolved tag
  | NoEffect

definition wildcard_effects :: "int \<Rightarrow> tag list" where
  "wildcard_effects box_id = [PASS, STEAL, BONUS_TURN] @ (if box_id = 6 then [DONATE] else [])"

definition set_pending_action :: "db \<Rightarrow> int \<Rightarrow> tag \<Rightarrow> db" where
  "set_pending_action s box_id a =
     (case slot_state s box_id of
        None \<Rightarrow> s
      | Some sl \<Rightarrow> s\<lparr>slot_state := (slot_state s)(box_id \<mapsto> sl\<lparr>pending_action := Some a\<rparr>)\<rparr>)"

definition set_turns_left :: "db \<Rightarrow> int \<Rightarrow> int \<Rightarrow> db" where
  "set_turns_left s box_id n =
     (case slot_state s box_id of
        None \<Rightarrow> s
      | Some sl \<Rightarrow> s\<lparr>slot_state := (slot_state s)(box_id \<mapsto> sl\<lparr>turns_left := n\<rparr>)\<rparr>)"

text \<open>The part of the handler after the two \<^verbatim>\<open>UPDATE\<close>s of the revealed set and of
  \<^verbatim>\<open>turns_left\<close>: the effect of the card. \<open>s\<close> is the database before the handler
  (what a raise before \<^verbatim>\<open>commit\<close> leaves), \<open>s1\<close> the database after the two updates,
  \<open>turns\<close> the decremented number of turns.\<close>

definition card_effect ::
  "db \<Rightarrow> db \<Rightarrow> int \<Rightarrow> box_secret \<Rightarrow> card \<Rightarrow> int \<Rightarrow> nat \<Rightarrow> (error + reveal_outcome) \<times> db" where
  "card_effect s s1 box_id row picked turns draw =
     (if ctype picked = PIECE then
        (let word = (if card_reveal picked = Some W1 then phrase_w1 row
                     else if card_reveal picked = Some W2 then phrase_w2 row
                     else phrase_w3 row)
         in (Inr (PieceRevealed word), s1))
      else if ctype picked \<in> {PASS, STEAL, DONATE} then
        (Inr (SpecialRevealed (ctype picked)), set_pending_action s1 box_id (ctype picked))
      else if ctype picked = WILDCARD then
        (let effects = wildcard_effects box_id in
         if length effects \<le> draw then (Inl IndexError, s)
         else
           let chosen = effects ! draw in
           if chosen = BONUS_TURN then
             (Inr (WildcardResolved chosen), set_turns_left s1 box_id (min 5 (turns + 1)))
           else
             (Inr (WildcardResolved chosen), set_pending_action s1 box_id chosen))
      else (Inr NoEffect, s1))"

definition CardButton_callback :: "db \<Rightarrow> int \<Rightarrow> nat \<Rightarrow> nat \<Rightarrow> (error + reveal_outcome) \<times> db" where
  "CardButton_callback s user_id idx draw =
     (case sessions s of
        None \<Rightarrow> (Inl NoSession, s)
      | Some sess \<Rightarrow>
          let box_id = current_box sess in
          case slot_state s box_id of
            None \<Rightarrow> (Inl NoActiveSlotHolder, s)
          | Some sl \<Rightarrow>
              (case slot_user_id sl of
                 None \<Rightarrow> (Inl NoActiveSlotHolder, s)
               | Some holder \<Rightarrow>
                   if holder \<noteq> user_id then (Inl OnlySlotHolderCanReveal, s)
                   else if turns_left sl \<le> 0 then (Inl NoTurnsRemaining, s)
                   else if pending_action sl \<noteq> None then (Inl SpecialActionPending, s)
                   else
                     case box_secrets s box_id of
                       None \<Rightarrow> (Inl BoxDeckNotFound, s)
                     | Some row \<Rightarrow>
                         if idx \<in> revealed_json row then (Inl CardAlreadyRevealed, s)
                         else if length (deck_json row) \<le> idx then (Inl IndexError, s)
                         else
                           let picked = deck_json row ! idx;
                               revealed = insert idx (revealed_json row);
                               turns = turns_left sl - 1;
                               s1 = set_turns_left
                                      (s\<lparr>box_secrets := (box_secrets s)(box_id \<mapsto>
                                            row\<lparr>revealed_json := revealed\<rparr>)\<rparr>)
                                      box_id turns
                           in card_effect s s1 box_id row picked turns draw))"

text \<open>A sequence of presses of card buttons: who pressed, which card, and what the
  process-wide generator would draw.\<close>

fun reveals :: "db \<Rightarrow> (int \<times> nat \<times> nat) list \<Rightarrow> db" where
  "reveals s [] = s"
| "reveals s ((user_id, idx, draw) # rest) =
     reveals (snd (CardButton_callback s user_id idx draw)) rest"

definition turns_nonneg :: "db \<Rightarrow> bool" where
  "turns_nonneg s = (\<forall>box_id sl. slot_state s box_id = Some sl \<longrightarrow> 0 \<le> turns_left sl)"

text \<open>The mega box with user 1 holding the slot with two turns, and a wildcard first in
  the deck.\<close>

definition wildcard_example :: db where
  "wildcard_example =
     \<lparr>sessions = Some \<lparr>session_seed = 123456, is_locked = True, current_box = 6,
                        opened_boxes_count = 5, eliminations_unlocked = True\<rparr>,
      participants = Map.empty, prizes = Map.empty, box_ownership = Map.empty,
      box_secrets = [6 \<mapsto> \<lparr>phrase_w1 = ''ONE'', phrase_w2 = ''FINE'', phrase_w3 = ''AFTERNOON'',
                            deck_json = [\<lparr>ctype = WILDCARD, card_reveal = None\<rparr>,
                                         \<lparr>ctype = PIECE, card_reveal = Some W1\<rparr>,
                                         \<lparr>ctype = PASS, card_reveal = None\<rparr>],
                            revealed_json = {}\<rparr>],
      trivia_rounds = Map.empty, trivia_submissions = [],
      order_rounds = Map.empty,
      slot_state = [6 \<mapsto> \<lparr>slot_user_id = Some 1, turns_left = 2,
                           pending_action = None, pending_msg_id = None\<rparr>],
      puzzle_attempts = []\<rparr>"


subsection \<open>The ordering round\<close>

text \<open>\<^verbatim>\<open>ord(x)\<close> is defined on strings of one character and raises \<^verbatim>\<open>TypeError\<close> on others.\<close>

definition ord :: "string \<Rightarrow> error + int" where
  "ord x = (case x of [c] \<Rightarrow> Inr (int (of_char c)) | _ \<Rightarrow> Inl TypeError)"

fun ords :: "string list \<Rightarrow> error + int list" where
  "ords [] = Inr []"
| "ords (x # xs) =
     (case ord x of
        Inl err \<Rightarrow> Inl err
      | Inr n \<Rightarrow> (case ords xs of Inl err \<Rightarrow> Inl err | Inr ns \<Rightarrow> Inr (n # ns)))"

text \<open>\<^verbatim>\<open>sum(1 for i in range(5) if submitted_indices[i] == correct[i])\<close>: an index beyond
  either list raises \<^verbatim>\<open>IndexError\<close>.\<close>

definition order_turns :: "int list \<Rightarrow> int list \<Rightarrow> error + int" where
  "order_turns submitted_indices correct =
     (if length submitted_indices < 5 \<or> length correct < 5 then Inl IndexError
      else Inr (int (length (filter (\<lambda>i. submitted_indices ! i = correct ! i) [0..<5]))))"

text \<open>
  \<^verbatim>\<open>
  async def order(interaction, a, b, c, d, e):
      letters = [a, b, c, d, e]
      letters = [x.strip().upper() for x in letters]
      if sorted(letters) != ["A", "B", "C", "D", "E"]:
          return ... "Invalid order. Use each of A B C D E exactly once."
      ...
      if not sess or int(sess["is_locked"]) != 1: return ... "No active locked session."
      box_id = int(sess["current_box"])
      orow = ... order_rounds ... box_id
      if not orow or int(orow["is_active"]) != 1: return ... "No active arrange question."
      slot_user_id = int(orow["slot_user_id"])
      if interaction.user.id != slot_user_id: return ... "Only the current slot holder may answer."
      correct = json.loads(orow["correct_order_json"])
      submitted_indices = [ord(x) - 65 for x in letters]
      turns = sum(1 for i in range(5) if submitted_indices[i] == correct[i])
      UPDATE order_rounds SET is_active=0 WHERE ... box_id
      UPDATE slot_state SET turns_left=turns, pending_action=NULL WHERE ... box_id
      con.commit()
  \<close>
  Strings are compared as Python compares them, by code point and lexicographically
  (the order of \<open>char list\<close>).
\<close>

definition order ::
  "db \<Rightarrow> int \<Rightarrow> string \<Rightarrow> string \<Rightarrow> string \<Rightarrow> string \<Rightarrow> string \<Rightarrow> (error + int) \<times> db" where
  "order s user_id a b c d e =
     (let letters = map (\<lambda>x. upper (strip x)) [a, b, c, d, e] in
      if sort letters \<noteq> [''A'', ''B'', ''C'', ''D'', ''E''] then (Inl InvalidOrder, s)
      else
        case sessions s of
          None \<Rightarrow> (Inl NoActiveLockedSession, s)
        | Some sess \<Rightarrow>
            if \<not> is_locked sess then (Inl NoActiveLockedSession, s)
            else
              let box_id = current_box sess in
              case order_rounds s box_id of
                None \<Rightarrow> (Inl NoActiveArrangeQuestion, s)
              | Some orow \<Rightarrow>
                  if \<not> or_is_active orow then (Inl NoActiveArrangeQuestion, s)
                  else if user_id \<noteq> or_slot_user_id orow then (Inl OnlySlotHolderMayAnswer, s)
                  else
                    let correct = correct_order_json orow in
                    case ords letters of
                      Inl err \<Rightarrow> (Inl err, s)
                    | Inr codes \<Rightarrow>
                        let submitted_indices = map (\<lambda>n. n - 65) codes in
                        case order_turns submitted_indices correct of
                          Inl err \<Rightarrow> (Inl err, s)
                        | Inr turns \<Rightarrow>
                            (Inr turns,
                             s\<lparr>order_rounds :=
                                 (order_rounds s)(box_id \<mapsto> orow\<lparr>or_is_active := False\<rparr>),
                               slot_state :=
                                 (case slot_state s box_id of
                                    None \<Rightarrow> slot_state s
                                  | Some sl \<Rightarrow>
                                      (slot_state s)(box_id \<mapsto>
                                        sl\<lparr>turns_left := turns, pending_action := None\<rparr>))\<rparr>))"

text \<open>The score as section 4.3 of the specification describes it: the number of the five
  positions at which the submitted label is the label the correct permutation has there,
  a label counting as its place among A to E.\<close>

definition label_position :: "string \<Rightarrow> int" where
  "label_position x =
     (if x = ''A'' then 0 else if x = ''B'' then 1 else if x = ''C'' then 2
      else if x = ''D'' then 3 else if x = ''E'' then 4 else - 1)"

definition spec_order_score :: "string list \<Rightarrow> int list \<Rightarrow> int" where
  "spec_order_score letters correct =
     int (length (filter (\<lambda>i. label_position (letters ! i) = correct ! i) [0..<5]))"

text \<open>Box 2 with an active ordering round bound to user 7, whose slot still carries a
  stale pending action; the correct permutation is the one of section 8.\<close>

definition order_example :: db where
  "order_example =
     \<lparr>sessions = Some \<lparr>session_seed = 123456, is_locked = True, current_box = 2,
                        opened_boxes_count = 1, eliminations_unlocked = False\<rparr>,
      participants = Map.empty, prizes = Map.empty, box_ownership = Map.empty,
      box_secrets = Map.empty, trivia_rounds = Map.empty, trivia_submissions = [],
      order_rounds = [2 \<mapsto> \<lparr>or_slot_user_id = 7, or_prompt = ''p'', items_json = [],
                             correct_order_json = [2, 0, 4, 1, 3], or_is_active = True\<rparr>],
      slot_state = [2 \<mapsto> \<lparr>slot_user_id = Some 7, turns_left = 0,
                           pending_action = Some PASS, pending_msg_id = None\<rparr>],
      puzzle_attempts = []\<rparr>"


subsection \<open>The puzzle ledger\<close>

text \<open>
  \<^verbatim>\<open>
  def compute_puzzle_position_score(correct_words, guess_words) -> int:
      return sum(1 for i in range(3) if correct_words[i] == guess_words[i])
  \<close>
\<close>

fun compute_puzzle_position_score ::
  "string \<times> string \<times> string \<Rightarrow> string \<times> string \<times> string \<Rightarrow> int" where
  "compute_puzzle_position_score (c1, c2, c3) (w1, w2, w3) =
     (if c1 = w1 then 1 else 0) + (if c2 = w2 then 1 else 0) + (if c3 = w3 then 1 else 0)"

definition guess :: "puzzle_attempt \<Rightarrow> string \<times> string \<times> string" where
  "guess a = (g1 a, g2 a, g3 a)"

text \<open>
  \<^verbatim>\<open>
  def next_closest_puzzle_attempt(con, guild_id, channel_id, box_id, correct_words,
                                  exclude_attempt_id):
      attempts = con.execute("SELECT * FROM puzzle_attempts WHERE guild_id=? AND channel_id=?
                              AND box_id=? AND checked=0 AND attempt_id<>?", ...).fetchall()
      if not attempts:
          return None
      scored = []
      for a in attempts:
          g = (a["g1"], a["g2"], a["g3"])
          score = compute_puzzle_position_score(correct_words, g)
          scored.append((score, int(a["submitted_at_ms"]), a))
      scored.sort(key=lambda t: (-t[0], t[1]))
      return scored[0][2]
  \<close>
\<close>

definition next_closest_puzzle_attempt ::
  "db \<Rightarrow> int \<Rightarrow> string \<times> string \<times> string \<Rightarrow> int \<Rightarrow> puzzle_attempt option" where
  "next_closest_puzzle_attempt s box_id correct_words exclude_attempt_id =
     (let attempts = filter (\<lambda>a. pa_box_id a = box_id \<and> \<not> checked a \<and>
                                  attempt_id a \<noteq> exclude_attempt_id) (puzzle_attempts s) in
      if attempts = [] then None
      else
        let scored = map (\<lambda>a. (compute_puzzle_position_score correct_words (guess a),
                                pa_submitted_at_ms a, a)) attempts in
        (case sort_key (\<lambda>t. (- fst t, fst (snd t))) scored of
           t # _ \<Rightarrow> Some (snd (snd t))
         | [] \<Rightarrow> None))"

text \<open>\<^verbatim>\<open>UPDATE slot_state SET ... WHERE ... box_id=?\<close> changes the row of the box if there
  is one.\<close>

definition update_slot :: "db \<Rightarrow> int \<Rightarrow> (slot \<Rightarrow> slot) \<Rightarrow> db" where
  "update_slot s box_id f =
     (case slot_state s box_id of
        None \<Rightarrow> s
      | Some sl \<Rightarrow> s\<lparr>slot_state := (slot_state s)(box_id \<mapsto> f sl)\<rparr>)"

text \<open>
  The command \<^verbatim>\<open>/wib check_puzzle\<close>. The attempt checked is the row of
  \<^verbatim>\<open>SELECT * FROM puzzle_attempts WHERE ... box_id=? AND checked=0 ORDER BY attempt_id DESC
  LIMIT 1\<close>. The first transaction marks it and, when it solves the puzzle, clears the slot's
  turns and pending action; when it does not, a second transaction moves the slot to the
  author of the next closest attempt, if there is one:
  \<^verbatim>\<open>
      nxt = next_closest_puzzle_attempt(con2, ..., box_id, correct, int(attempt["attempt_id"]))
      if nxt:
          UPDATE slot_state SET slot_user_id=nxt.user_id, turns_left=0, pending_action=NULL
          con2.commit()
  \<close>
\<close>

datatype check_reply = Solved | NotSolved int "int option"

definition phrase_words :: "box_secret \<Rightarrow> string \<times> string \<times> string" where
  "phrase_words secret = (phrase_w1 secret, phrase_w2 secret, phrase_w3 secret)"

definition latest_unchecked :: "db \<Rightarrow> int \<Rightarrow> puzzle_attempt option" where
  "latest_unchecked s box_id =
     (case sort_key (\<lambda>a. - attempt_id a)
             (filter (\<lambda>a. pa_box_id a = box_id \<and> \<not> checked a) (puzzle_attempts s)) of
        a # _ \<Rightarrow> Some a
      | [] \<Rightarrow> None)"

definition mark_checked :: "int \<Rightarrow> int \<Rightarrow> int \<Rightarrow> puzzle_attempt \<Rightarrow> puzzle_attempt" where
  "mark_checked box_id aid score a =
     (if pa_box_id a = box_id \<and> attempt_id a = aid
      then a\<lparr>checked := True, score_positions := score\<rparr> else a)"

definition check_puzzle :: "db \<Rightarrow> bool \<Rightarrow> (error + check_reply) \<times> db" where
  "check_puzzle s has_host_role =
     (if \<not> has_host_role then (Inl HostPermissionRequired, s)
      else case sessions s of
        None \<Rightarrow> (Inl NoSession, s)
      | Some sess \<Rightarrow>
          let box_id = current_box sess in
          case box_secrets s box_id of
            None \<Rightarrow> (Inl BoxSecretNotFound, s)
          | Some secret \<Rightarrow>
              let correct = phrase_words secret in
              case latest_unchecked s box_id of
                None \<Rightarrow> (Inl NoPendingPuzzleAttempts, s)
              | Some attempt \<Rightarrow>
                  let score = compute_puzzle_position_score correct (guess attempt);
                      solved = (score = 3);
                      s1 = s\<lparr>puzzle_attempts :=
                             map (mark_checked box_id (attempt_id attempt) score)
                               (puzzle_attempts s)\<rparr>
                  in
                  if solved then
                    (Inr Solved,
                     update_slot s1 box_id (\<lambda>sl. sl\<lparr>turns_left := 0, pending_action := None\<rparr>))
                  else
                    case next_closest_puzzle_attempt s1 box_id correct (attempt_id attempt) of
                      None \<Rightarrow> (Inr (NotSolved score None), s1)
                    | Some nxt \<Rightarrow>
                        (Inr (NotSolved score (Some (pa_user_id nxt))),
                         update_slot s1 box_id
                           (\<lambda>sl. sl\<lparr>slot_user_id := Some (pa_user_id nxt), turns_left := 0,
                                     pending_action := None\<rparr>)))"

text \<open>The unchecked attempts of a box, and the ranking of section 4.5 of the
  specification: \<open>n\<close> is first among \<open>rest\<close> by score descending, then by submission time
  ascending.\<close>

definition unchecked_attempts :: "db \<Rightarrow> int \<Rightarrow> puzzle_attempt list" where
  "unchecked_attempts s box_id =
     filter (\<lambda>a. pa_box_id a = box_id \<and> \<not> checked a) (puzzle_attempts s)"

definition spec_next_closest ::
  "string \<times> string \<times> string \<Rightarrow> puzzle_attempt list \<Rightarrow> puzzle_attempt \<Rightarrow> bool" where
  "spec_next_closest correct rest n =
     (n \<in> set rest \<and>
      (\<forall>x\<in>set rest.
         compute_puzzle_position_score correct (guess x) <
           compute_puzzle_position_score correct (guess n) \<or>
         (compute_puzzle_position_score correct (guess x) =
            compute_puzzle_position_score correct (guess n) \<and>
          pa_submitted_at_ms n \<le> pa_submitted_at_ms x)))"

text \<open>Box 2 with the phrase ONE FINE AFTERNOON. User 25 holds the slot. Attempt 1 is
  checked already; the unchecked attempts 2, 3 and 4 are those of the rotation example of
  section 8 (scores 2, 2 and 1, submitted at 5, 2 and 9), and attempt 5, by the slot holder,
  is the latest.\<close>

definition puzzle_example :: db where
  "puzzle_example =
     \<lparr>sessions = Some \<lparr>session_seed = 123456, is_locked = True, current_box = 2,
                        opened_boxes_count = 1, eliminations_unlocked = False\<rparr>,
      participants = [22 \<mapsto> \<lparr>display_name = ''B'', eliminated = False\<rparr>,
                      23 \<mapsto> \<lparr>display_name = ''C'', eliminated = False\<rparr>,
                      24 \<mapsto> \<lparr>display_name = ''D'', eliminated = False\<rparr>,
                      25 \<mapsto> \<lparr>display_name = ''E'', eliminated = False\<rparr>],
      prizes = Map.empty, box_ownership = Map.empty,
      box_secrets = [2 \<mapsto> \<lparr>phrase_w1 = ''ONE'', phrase_w2 = ''FINE'', phrase_w3 = ''AFTERNOON'',
                            deck_json = [], revealed_json = {}\<rparr>],
      trivia_rounds = Map.empty, trivia_submissions = [], order_rounds = Map.empty,
      slot_state = [2 \<mapsto> \<lparr>slot_user_id = Some 25, turns_left = 1,
                           pending_action = None, pending_msg_id = None\<rparr>],
      puzzle_attempts =
        [\<lparr>pa_box_id = 2, attempt_id = 1, pa_user_id = 25, g1 = ''ONE'', g2 = ''SMALL'',
          g3 = ''GARDEN'', pa_submitted_at_ms = 1, checked = True, score_positions = 1\<rparr>,
         \<lparr>pa_box_id = 2, attempt_id = 2, pa_user_id = 22, g1 = ''ONE'', g2 = ''FINE'',
          g3 = ''MORNING'', pa_submitted_at_ms = 5, checked = False, score_positions = 0\<rparr>,
         \<lparr>pa_box_id = 2, attempt_id = 3, pa_user_id = 23, g1 = ''ONE'', g2 = ''COLD'',
          g3 = ''AFTERNOON'', pa_submitted_at_ms = 2, checked = False, score_positions = 0\<rparr>,
         \<lparr>pa_box_id = 2, attempt_id = 4, pa_user_id = 24, g1 = ''ONE'', g2 = ''COLD'',
          g3 = ''MORNING'', pa_submitted_at_ms = 9, checked = False, score_positions = 0\<rparr>,
         \<lparr>pa_box_id = 2, attempt_id = 5, pa_user_id = 25, g1 = ''BLUE'', g2 = ''COLD'',
          g3 = ''MORNING'', pa_submitted_at_ms = 10, checked = False, score_positions = 0\<rparr>]\<rparr>"

text \<open>The same box when the slot holder's wrong guess is the only attempt.\<close>

definition last_attempt_example :: db where
  "last_attempt_example =
     puzzle_example\<lparr>puzzle_attempts :=
       [\<lparr>pa_box_id = 2, attempt_id = 1, pa_user_id = 25, g1 = ''ONE'', g2 = ''SMALL'',
         g3 = ''GARDEN'', pa_submitted_at_ms = 1, checked = False, score_positions = 0\<rparr>]\<rparr>"


subsection \<open>Submitting a guess\<close>

text \<open>
  A guess reaches the ledger through the button "Submit Puzzle" of \<^verbatim>\<open>SubmitPuzzleView\<close>,
  which opens the form \<^verbatim>\<open>PuzzleModal\<close>; the view is made for one box.
  \<^verbatim>\<open>
  async def submit_puzzle(self, interaction, button):
      slot = ... "SELECT slot_user_id FROM slot_state WHERE ... box_id=?" (self.box_id)
      if not slot or slot["slot_user_id"] is None or int(slot["slot_user_id"]) != interaction.user.id:
          return ... "Only the current slot holder can submit."
      await interaction.response.send_modal(PuzzleModal(self.guild_id, self.channel_id, self.box_id))
  \<close>
\<close>

definition submit_puzzle :: "db \<Rightarrow> int \<Rightarrow> int \<Rightarrow> (error + unit) \<times> db" where
  "submit_puzzle s box_id user_id =
     (case slot_state s box_id of
        None \<Rightarrow> (Inl OnlySlotHolderCanSubmit, s)
      | Some sl \<Rightarrow>
          (case slot_user_id sl of
             None \<Rightarrow> (Inl OnlySlotHolderCanSubmit, s)
           | Some holder \<Rightarrow>
               if holder \<noteq> user_id then (Inl OnlySlotHolderCanSubmit, s) else (Inr (), s)))"

text \<open>\<^verbatim>\<open>SELECT COALESCE(MAX(attempt_id), 0) FROM puzzle_attempts WHERE ... box_id=?\<close>\<close>

definition max_attempt_id :: "db \<Rightarrow> int \<Rightarrow> int" where
  "max_attempt_id s box_id =
     (case map attempt_id (filter (\<lambda>a. pa_box_id a = box_id) (puzzle_attempts s)) of
        [] \<Rightarrow> 0
      | i # ids \<Rightarrow> fold max ids i)"

text \<open>
  \<^verbatim>\<open>
  async def on_submit(self, interaction):
      user = interaction.user
      g1, g2, g3 = norm_word(str(self.w1)), norm_word(str(self.w2)), norm_word(str(self.w3))
      row = ... COALESCE(MAX(attempt_id), 0) AS mx ...
      attempt_id = int(row["mx"]) + 1
      INSERT INTO puzzle_attempts (..., box_id, attempt_id, user_id, g1, g2, g3, submitted_at_ms)
        VALUES (..., self.box_id, attempt_id, user.id, g1, g2, g3, now_ms())
      con.commit()
  \<close>
  The columns \<^verbatim>\<open>checked\<close> and \<^verbatim>\<open>score_positions\<close> take their default 0.
\<close>

definition PuzzleModal_on_submit ::
  "db \<Rightarrow> int \<Rightarrow> int \<Rightarrow> string \<Rightarrow> string \<Rightarrow> string \<Rightarrow> int \<Rightarrow> int \<times> db" where
  "PuzzleModal_on_submit s box_id user_id w1 w2 w3 now_ms =
     (let new_id = max_attempt_id s box_id + 1 in
      (new_id,
       s\<lparr>puzzle_attempts := puzzle_attempts s @
           [\<lparr>pa_box_id = box_id, attempt_id = new_id, pa_user_id = user_id,
             g1 = norm_word w1, g2 = norm_word w2, g3 = norm_word w3,
             pa_submitted_at_ms = now_ms, checked = False, score_positions = 0\<rparr>]\<rparr>))"

text \<open>
  The whole path of a guess: the button, then the form. They are two handlers, each with a
  transaction of its own, and the user fills in the form in between; meanwhile other
  commands (\<^verbatim>\<open>/wib check_puzzle\<close>, \<^verbatim>\<open>/wib reveal\<close>, a PASS selection) may change the
  database and move the slot. So the path takes two databases: \<open>s_button\<close>, the one the
  button handler reads, and \<open>s_form\<close>, the one the form handler finds and writes to; any
  database may be the second. A press that is turned away opens no form, and the database of
  the press is what is left.
\<close>

definition submit_puzzle_guess ::
  "db \<Rightarrow> db \<Rightarrow> int \<Rightarrow> int \<Rightarrow> string \<Rightarrow> string \<Rightarrow> string \<Rightarrow> int \<Rightarrow> (error + int) \<times> db" where
  "submit_puzzle_guess s_button s_form box_id user_id w1 w2 w3 now_ms =
     (case fst (submit_puzzle s_button box_id user_id) of
        Inl err \<Rightarrow> (Inl err, s_button)
      | Inr _ \<Rightarrow>
          (Inr (fst (PuzzleModal_on_submit s_form box_id user_id w1 w2 w3 now_ms)),
           snd (PuzzleModal_on_submit s_form box_id user_id w1 w2 w3 now_ms)))"

text \<open>The puzzle example after \<^verbatim>\<open>/wib check_puzzle\<close>: attempt 5 is checked and the slot has
  gone from user 25 to user 23.\<close>

definition slot_moved_example :: db where
  "slot_moved_example =
     puzzle_example\<lparr>
       slot_state := [2 \<mapsto> \<lparr>slot_user_id = Some 23, turns_left = 0,
                            pending_action = None, pending_msg_id = None\<rparr>],
       puzzle_attempts := map (mark_checked 2 5 0) (puzzle_attempts puzzle_example)\<rparr>"

subsection \<open>Opening a box\<close>

text \<open>
  The transaction of \<^verbatim>\<open>/wib open_box\<close>. \<^verbatim>\<open>is_owner(user)\<close> is
  \<^verbatim>\<open>user.id == OWNER_ID\<close>, with \<^verbatim>\<open>OWNER_ID\<close> read from the environment.
  \<^verbatim>\<open>
      box_id = int(sess["current_box"])
      solved = ... "SELECT 1 FROM puzzle_attempts WHERE ... box_id=? AND checked=1
                    AND score_positions=3 LIMIT 1"
      if not solved: return ... "Box is not ready yet (puzzle not confirmed)."
      solver = ... "SELECT user_id ... AND checked=1 AND score_positions=3
                    ORDER BY attempt_id DESC LIMIT 1"
      solver_id = int(solver["user_id"]) if solver else interaction.user.id
      prize = ... prizes ... box_id
      if not prize or not (prize["title"] or "").strip():
          await interaction.response.send_modal(PrizeModal(...)); return
      INSERT INTO box_ownership ... ON CONFLICT ... DO UPDATE SET owner_user_id=..., updated_at_ms=...
      opened_boxes_count = int(sess["opened_boxes_count"]) + 1
      next_box = min(6, box_id + 1)
      eliminations_unlocked = 1 if opened_boxes_count >= 3 else int(sess["eliminations_unlocked"])
      UPDATE sessions SET opened_boxes_count=?, eliminations_unlocked=?, current_box=?
      con.commit()
  \<close>
  The reply carries the box opened and its new owner. After the commit the command
  announces the prize and, for a box before the sixth, has \<^verbatim>\<open>ensure_box_secret\<close> create the
  secret and the empty slot of the next box; that step writes neither the session row nor
  the ownership table, and for box 6 it writes nothing.
\<close>

definition solved_attempts :: "db \<Rightarrow> int \<Rightarrow> puzzle_attempt list" where
  "solved_attempts s box_id =
     filter (\<lambda>a. pa_box_id a = box_id \<and> checked a \<and> score_positions a = 3) (puzzle_attempts s)"

definition open_box :: "db \<Rightarrow> int \<Rightarrow> int \<Rightarrow> int \<Rightarrow> (error + int \<times> int) \<times> db" where
  "open_box s owner_id user_id now_ms =
     (if user_id \<noteq> owner_id then (Inl OwnerPermissionRequired, s)
      else case sessions s of
        None \<Rightarrow> (Inl NoSession, s)
      | Some sess \<Rightarrow>
          let box_id = current_box sess in
          if solved_attempts s box_id = [] then (Inl BoxNotReady, s)
          else
            let solver_id =
                  (case sort_key (\<lambda>a. - attempt_id a) (solved_attempts s box_id) of
                     a # _ \<Rightarrow> pa_user_id a
                   | [] \<Rightarrow> user_id)
            in
            case prizes s box_id of
              None \<Rightarrow> (Inl PrizeModalSent, s)
            | Some prize \<Rightarrow>
                if strip (case title prize of None \<Rightarrow> [] | Some t \<Rightarrow> t) = []
                then (Inl PrizeModalSent, s)
                else
                  let opened = opened_boxes_count sess + 1;
                      next_box = min 6 (box_id + 1);
                      unlocked = (if opened \<ge> 3 then True else eliminations_unlocked sess)
                  in
                  (Inr (box_id, solver_id),
                   s\<lparr>box_ownership := (box_ownership s)(box_id \<mapsto>
                         \<lparr>owner_user_id = solver_id, updated_at_ms = now_ms\<rparr>),
                     sessions := Some (sess\<lparr>opened_boxes_count := opened,
                                            eliminations_unlocked := unlocked,
                                            current_box := next_box\<rparr>)\<rparr>))"

text \<open>Box 2 solved by user 23 with attempt 3, after a wrong attempt, and its prize filled
  in.\<close>

definition solved_example :: db where
  "solved_example =
     puzzle_example\<lparr>
       prizes := [2 \<mapsto> \<lparr>title = Some ''Gift card'', description = Some ''''\<rparr>],
       puzzle_attempts :=
         [\<lparr>pa_box_id = 2, attempt_id = 1, pa_user_id = 25, g1 = ''ONE'', g2 = ''SMALL'',
           g3 = ''GARDEN'', pa_submitted_at_ms = 1, checked = True, score_positions = 1\<rparr>,
          \<lparr>pa_box_id = 2, attempt_id = 3, pa_user_id = 23, g1 = ''ONE'', g2 = ''FINE'',
           g3 = ''AFTERNOON'', pa_submitted_at_ms = 2, checked = True, score_positions = 3\<rparr>]\<rparr>"

text \<open>The mega box, five boxes opened, solved by user 23, its prize filled in; the owner
  of the program is user 1.\<close>

definition mega_example :: db where
  "mega_example =
     \<lparr>sessions = Some \<lparr>session_seed = 123456, is_locked = True, current_box = 6,
                        opened_boxes_count = 5, eliminations_unlocked = True\<rparr>,
      participants = [23 \<mapsto> \<lparr>display_name = ''C'', eliminated = False\<rparr>],
      prizes = [6 \<mapsto> \<lparr>title = Some ''Grand prize'', description = None\<rparr>],
      box_ownership = Map.empty,
      box_secrets = [6 \<mapsto> \<lparr>phrase_w1 = ''ONE'', phrase_w2 = ''FINE'', phrase_w3 = ''AFTERNOON'',
                            deck_json = [], revealed_json = {}\<rparr>],
      trivia_rounds = Map.empty, trivia_submissions = [], order_rounds = Map.empty,
      slot_state = [6 \<mapsto> \<lparr>slot_user_id = Some 23, turns_left = 0,
                           pending_action = None, pending_msg_id = None\<rparr>],
      puzzle_attempts =
        [\<lparr>pa_box_id = 6, attempt_id = 1, pa_user_id = 23, g1 = ''ONE'', g2 = ''FINE'',
          g3 = ''AFTERNOON'', pa_submitted_at_ms = 900, checked = True, score_positions = 3\<rparr>]\<rparr>"


subsection \<open>The seeded generator\<close>

text \<open>
  The content generators draw from \<^verbatim>\<open>random.Random(seed)\<close>, a generator object of their
  own. The class belongs to Python's library, not to the program, so it is a parameter of
  the model: a type \<open>'g\<close> of generator states with the seeding \<^verbatim>\<open>Random(x)\<close>, the draw
  \<^verbatim>\<open>_randbelow(n)\<close> of a number below \<open>n\<close>, and the index that
  \<^verbatim>\<open>choices(population, weights=w)\<close> picks for its one result; each draw returns the
  generator state it leaves. The library's \<^verbatim>\<open>choice\<close>, \<^verbatim>\<open>randint\<close> and \<^verbatim>\<open>shuffle\<close>
  are written from these as CPython's \<^verbatim>\<open>random.py\<close> does:
  \<^verbatim>\<open>
  def choice(self, seq):   return seq[self._randbelow(len(seq))]
  def randint(self, a, b): return a + self._randbelow(b - a + 1)
  def shuffle(self, x):
      for i in reversed(range(1, len(x))):
          j = self._randbelow(i + 1)
          x[i], x[j] = x[j], x[i]
  \<close>
\<close>

record 'g rng =
  Random :: "int \<Rightarrow> 'g"
  randbelow :: "'g \<Rightarrow> nat \<Rightarrow> nat \<times> 'g"
  weighted_index :: "'g \<Rightarrow> nat list \<Rightarrow> nat \<times> 'g"

text \<open>What the library promises of the draws: \<^verbatim>\<open>_randbelow(n)\<close> is below \<open>n\<close>, and
  \<^verbatim>\<open>choices\<close> picks a member of the population.\<close>

definition rng_contract :: "'g rng \<Rightarrow> bool" where
  "rng_contract R =
     ((\<forall>g n. 0 < n \<longrightarrow> fst (randbelow R g n) < n) \<and>
      (\<forall>g ws. ws \<noteq> [] \<longrightarrow> fst (weighted_index R g ws) < length ws))"

definition choice :: "'g rng \<Rightarrow> 'g \<Rightarrow> 'a list \<Rightarrow> 'a \<times> 'g" where
  "choice R g seq = (seq ! fst (randbelow R g (length seq)), snd (randbelow R g (length seq)))"

definition randint :: "'g rng \<Rightarrow> 'g \<Rightarrow> int \<Rightarrow> int \<Rightarrow> int \<times> 'g" where
  "randint R g a b =
     (a + int (fst (randbelow R g (nat (b - a + 1)))), snd (randbelow R g (nat (b - a + 1))))"

definition choices1 :: "'g rng \<Rightarrow> 'g \<Rightarrow> 'a list \<Rightarrow> nat list \<Rightarrow> 'a \<times> 'g" where
  "choices1 R g population weights =
     (population ! fst (weighted_index R g weights), snd (weighted_index R g weights))"

fun shuffle_from :: "'g rng \<Rightarrow> nat \<Rightarrow> 'a list \<Rightarrow> 'g \<Rightarrow> 'a list \<times> 'g" where
  "shuffle_from R 0 x g = (x, g)"
| "shuffle_from R (Suc i) x g =
     (let j = fst (randbelow R g (Suc i + 1));
          g' = snd (randbelow R g (Suc i + 1))
      in shuffle_from R i (x[Suc i := x ! j, j := x ! Suc i]) g')"

definition shuffle :: "'g rng \<Rightarrow> 'a list \<Rightarrow> 'g \<Rightarrow> 'a list \<times> 'g" where
  "shuffle R x g = shuffle_from R (length x - 1) x g"

text \<open>A small generator to run the definitions on: the state counts the draws.\<close>

fun bucket :: "nat list \<Rightarrow> nat \<Rightarrow> nat" where
  "bucket [] r = 0"
| "bucket (w # ws) r = (if r < w \<or> ws = [] then 0 else Suc (bucket ws (r - w)))"

definition counter_rng :: "nat rng" where
  "counter_rng =
     \<lparr>Random = (\<lambda>x. nat \<bar>x\<bar>),
      randbelow = (\<lambda>g n. (g mod n, Suc g)),
      weighted_index = (\<lambda>g ws. (bucket ws (g mod sum_list ws), Suc g))\<rparr>"

subsection \<open>Rendering text\<close>

function digits :: "nat \<Rightarrow> string" where
  "digits n = (if n < 10 then [char_of (48 + n)] else digits (n div 10) @ [char_of (48 + n mod 10)])"
  by pat_completeness auto
termination
  by (relation "measure id") auto

text \<open>\<^verbatim>\<open>str(i)\<close> of an integer.\<close>

definition str :: "int \<Rightarrow> string" where
  "str i = (if i < 0 then CHR ''-'' # digits (nat (- i)) else digits (nat i))"

text \<open>\<^verbatim>\<open>needle in haystack\<close> for strings.\<close>

fun contains :: "string \<Rightarrow> string \<Rightarrow> bool" where
  "contains needle [] = (needle = [])"
| "contains needle (c # cs) =
     (take (length needle) (c # cs) = needle \<or> contains needle cs)"

text \<open>\<^verbatim>\<open>sep.join(parts)\<close>\<close>

fun join :: "string \<Rightarrow> string list \<Rightarrow> string" where
  "join sep [] = []"
| "join sep [p] = p"
| "join sep (p # q # ps) = p @ sep @ join sep (q # ps)"

text \<open>A template of \<^verbatim>\<open>str.format\<close>: literal text and the fields \<^verbatim>\<open>{seed}\<close>,
  \<^verbatim>\<open>{box}\<close>, \<^verbatim>\<open>{players}\<close>, \<^verbatim>\<open>{k}\<close>.\<close>

datatype segment = Lit string | Field_seed | Field_box | Field_players | Field_k

fun segment_text :: "segment \<Rightarrow> string" where
  "segment_text (Lit t) = t"
| "segment_text Field_seed = ''{seed}''"
| "segment_text Field_box = ''{box}''"
| "segment_text Field_players = ''{players}''"
| "segment_text Field_k = ''{k}''"

definition template_text :: "segment list \<Rightarrow> string" where
  "template_text tpl = concat (map segment_text tpl)"

fun format_segment :: "int \<Rightarrow> int \<Rightarrow> int \<Rightarrow> int \<Rightarrow> segment \<Rightarrow> string" where
  "format_segment seed box players k (Lit t) = t"
| "format_segment seed box players k Field_seed = str seed"
| "format_segment seed box players k Field_box = str box"
| "format_segment seed box players k Field_players = str players"
| "format_segment seed box players k Field_k = str k"

definition format :: "segment list \<Rightarrow> int \<Rightarrow> int \<Rightarrow> int \<Rightarrow> int \<Rightarrow> string" where
  "format tpl seed box players k = concat (map (format_segment seed box players k) tpl)"

subsection \<open>The content generators\<close>

definition NUMERIC_TEMPLATES :: "segment list list" where
  "NUMERIC_TEMPLATES =
     [[Lit ''Box '', Field_box, Lit '': Using seed '', Field_seed,
       Lit '', compute: (seed % 97) + (players * '', Field_k, Lit ''). Answer as an integer.''],
      [Lit ''Box '', Field_box, Lit '': Take seed '', Field_seed,
       Lit ''. Compute: (seed % 100) - '', Field_k, Lit '' + (players * 2). Answer as an integer.''],
      [Lit ''Box '', Field_box, Lit '': Let N be number of registered players ('', Field_players,
       Lit ''). Compute: (seed % 89) + N + '', Field_k, Lit ''.''],
      [Lit ''Box '', Field_box, Lit '': Compute: (seed % 73) + ('', Field_k,
       Lit '' * players) - (box * 3).'']]"

definition ORDER_TEMPLATES :: "string list" where
  "ORDER_TEMPLATES =
     [''Arrange these five deliveries from earliest to latest (1 to 5):'',
      ''Arrange these five values from smallest to largest (1 to 5):'',
      ''Arrange these five checkpoints from first to last (1 to 5):'']"

definition WORD_BANK_1 :: "string list" where
  "WORD_BANK_1 = [''ONE'', ''SILVER'', ''MIDNIGHT'', ''BRIGHT'', ''HIDDEN'', ''GOLDEN'', ''QUIET'',
                  ''FIRST'', ''SOFT'', ''BLUE'', ''CRISP'', ''FAIR'']"

definition WORD_BANK_2 :: "string list" where
  "WORD_BANK_2 = [''FINE'', ''STILL'', ''COLD'', ''TRUE'', ''SMALL'', ''WILD'', ''GREEN'', ''DARK'',
                  ''CLEAR'', ''LAST'', ''SWEET'', ''SHARP'']"

definition WORD_BANK_3 :: "string list" where
  "WORD_BANK_3 = [''AFTERNOON'', ''MORNING'', ''HORIZON'', ''PROMISE'', ''WHISPER'', ''GARDEN'',
                  ''LANTERN'', ''SUNRISE'', ''MOONLIGHT'', ''COMPASS'', ''VICTORY'', ''FIRELIGHT'']"

text \<open>
  \<^verbatim>\<open>
  def gen_numeric_question(seed, box_id, player_count):
      rng = random.Random(seed * 100 + box_id * 7 + player_count)
      tpl = rng.choice(NUMERIC_TEMPLATES)
      k = rng.randint(3, 11)
      if "seed % 97" in tpl:    ans = (seed % 97) + (player_count * k)
      elif "seed % 100" in tpl: ans = (seed % 100) - k + (player_count * 2)
      elif "seed % 89" in tpl:  ans = (seed % 89) + player_count + k
      else:                     ans = (seed % 73) + (k * player_count) - (box_id * 3)
      q = tpl.format(seed=seed, box=box_id, players=player_count, k=k)
      return q, int(ans)
  \<close>
\<close>

definition gen_numeric_question :: "'g rng \<Rightarrow> int \<Rightarrow> int \<Rightarrow> int \<Rightarrow> string \<times> int" where
  "gen_numeric_question R seed box_id player_count =
     (let g0 = Random R (seed * 100 + box_id * 7 + player_count);
          tpl = fst (choice R g0 NUMERIC_TEMPLATES);
          g1 = snd (choice R g0 NUMERIC_TEMPLATES);
          k = fst (randint R g1 3 11);
          ans = (if contains ''seed % 97'' (template_text tpl)
                   then (seed mod 97) + (player_count * k)
                 else if contains ''seed % 100'' (template_text tpl)
                   then (seed mod 100) - k + (player_count * 2)
                 else if contains ''seed % 89'' (template_text tpl)
                   then (seed mod 89) + player_count + k
                 else (seed mod 73) + (k * player_count) - (box_id * 3));
          q = format tpl seed box_id player_count k
      in (q, ans))"

text \<open>
  \<^verbatim>\<open>
  def gen_order_question(seed, box_id):
      rng = random.Random(seed * 200 + box_id * 19)
      mode = rng.choice(ORDER_TEMPLATES)
      items = []; values = []
      for i in range(5):
          v = rng.randint(10, 99)
          while v in values:
              v = rng.randint(10, 99)
          values.append(v)
          items.append(f"{chr(65+i)}: Item {i+1} ({v})")
      if "earliest" in mode or "first to last" in mode:
          sorted_pairs = sorted(list(enumerate(values)), key=lambda x: x[1])
      else:
          sorted_pairs = sorted(list(enumerate(values)), key=lambda x: x[1])
      correct_indices = [idx for idx, _ in sorted_pairs]
      prompt = f"Box {box_id}: {mode}\n" + "\n".join(items) + "\n\nSubmit with: /wib order A B C D E"
      return prompt, items, correct_indices
  \<close>
  The \<^verbatim>\<open>while\<close> loop ends only when the generator draws a value not yet taken, so the
  model of the loop is partial: \<open>None\<close> stands for a run that never returns.
\<close>

partial_function (option) redraw :: "'g rng \<Rightarrow> int list \<Rightarrow> int \<Rightarrow> 'g \<Rightarrow> (int \<times> 'g) option" where
  "redraw R values v g =
     (if v \<in> set values
      then redraw R values (fst (randint R g 10 99)) (snd (randint R g 10 99))
      else Some (v, g))"

declare redraw.simps [code]

fun draw_values :: "'g rng \<Rightarrow> nat \<Rightarrow> int list \<Rightarrow> 'g \<Rightarrow> (int list \<times> 'g) option" where
  "draw_values R 0 values g = Some (values, g)"
| "draw_values R (Suc n) values g =
     (case redraw R values (fst (randint R g 10 99)) (snd (randint R g 10 99)) of
        None \<Rightarrow> None
      | Some (v, g') \<Rightarrow> draw_values R n (values @ [v]) g')"

definition item_text :: "nat \<Rightarrow> int \<Rightarrow> string" where
  "item_text i v =
     [char_of (65 + i)] @ '': Item '' @ str (int i + 1) @ '' ('' @ str v @ '')''"

definition gen_order_question ::
  "'g rng \<Rightarrow> int \<Rightarrow> int \<Rightarrow> (string \<times> string list \<times> int list) option" where
  "gen_order_question R seed box_id =
     (let g0 = Random R (seed * 200 + box_id * 19);
          mode = fst (choice R g0 ORDER_TEMPLATES);
          g1 = snd (choice R g0 ORDER_TEMPLATES)
      in case draw_values R 5 [] g1 of
           None \<Rightarrow> None
         | Some (values, _) \<Rightarrow>
             let items = map (\<lambda>(i, v). item_text i v) (enumerate 0 values);
                 sorted_pairs =
                   (if contains ''earliest'' mode \<or> contains ''first to last'' mode
                    then sort_key snd (enumerate 0 values)
                    else sort_key snd (enumerate 0 values));
                 correct_indices = map (\<lambda>(idx, _). int idx) sorted_pairs;
                 prompt = ''Box '' @ str box_id @ '': '' @ mode @ [CHR 0x0A] @
                          join [CHR 0x0A] items @
                          [CHR 0x0A, CHR 0x0A] @ ''Submit with: /wib order A B C D E''
             in Some (prompt, items, correct_indices))"

text \<open>
  \<^verbatim>\<open>
  def gen_phrase_and_deck(seed, box_id):
      rng = random.Random(seed * 300 + box_id * 31)
      w1 = rng.choice(WORD_BANK_1); w2 = rng.choice(WORD_BANK_2); w3 = rng.choice(WORD_BANK_3)
      phrase = (w1, w2, w3)
      deck = [{"type": "PIECE", "reveal": "W1"}, {"type": "PIECE", "reveal": "W2"},
              {"type": "PIECE", "reveal": "W3"}]
      remaining = 7
      if box_id == 1:
          for _ in range(remaining):
              t = rng.choices(["PIECE", "PASS"], weights=[7, 3])[0]
              if t == "PIECE": deck.append({"type": "PIECE", "reveal": rng.choice(["W1", "W2", "W3"])})
              else:            deck.append({"type": "PASS"})
      elif 2 <= box_id <= 5:
          ... rng.choices(["PIECE", "PASS", "STEAL"], weights=[6, 2, 2])[0] ...
              else:            deck.append({"type": t})
      else:
          ... rng.choices(["PIECE", "PASS", "STEAL", "DONATE", "WILDCARD"], weights=[5, 2, 2, 2, 1])[0] ...
              else:            deck.append({"type": t})
      rng.shuffle(deck)
      return phrase, deck
  \<close>
\<close>

fun draw_cards :: "'g rng \<Rightarrow> nat \<Rightarrow> tag list \<Rightarrow> nat list \<Rightarrow> card list \<Rightarrow> 'g \<Rightarrow> card list \<times> 'g" where
  "draw_cards R 0 tags weights deck g = (deck, g)"
| "draw_cards R (Suc n) tags weights deck g =
     (let t = fst (choices1 R g tags weights);
          g1 = snd (choices1 R g tags weights)
      in if t = PIECE then
           draw_cards R n tags weights
             (deck @ [\<lparr>ctype = PIECE, card_reveal = Some (fst (choice R g1 [W1, W2, W3]))\<rparr>])
             (snd (choice R g1 [W1, W2, W3]))
         else
           draw_cards R n tags weights (deck @ [\<lparr>ctype = t, card_reveal = None\<rparr>]) g1)"

text \<open>The phrase, the deck before it is shuffled, and the generator at that point.\<close>

definition build_deck :: "'g rng \<Rightarrow> int \<Rightarrow> int \<Rightarrow> (string \<times> string \<times> string) \<times> card list \<times> 'g" where
  "build_deck R seed box_id =
     (let g0 = Random R (seed * 300 + box_id * 31);
          w1 = fst (choice R g0 WORD_BANK_1); g1 = snd (choice R g0 WORD_BANK_1);
          w2 = fst (choice R g1 WORD_BANK_2); g2 = snd (choice R g1 WORD_BANK_2);
          w3 = fst (choice R g2 WORD_BANK_3); g3 = snd (choice R g2 WORD_BANK_3);
          deck = [\<lparr>ctype = PIECE, card_reveal = Some W1\<rparr>,
                  \<lparr>ctype = PIECE, card_reveal = Some W2\<rparr>,
                  \<lparr>ctype = PIECE, card_reveal = Some W3\<rparr>];
          remaining = 7;
          drawn = (if box_id = 1 then draw_cards R remaining [PIECE, PASS] [7, 3] deck g3
                   else if 2 \<le> box_id \<and> box_id \<le> 5
                     then draw_cards R remaining [PIECE, PASS, STEAL] [6, 2, 2] deck g3
                   else draw_cards R remaining [PIECE, PASS, STEAL, DONATE, WILDCARD]
                          [5, 2, 2, 2, 1] deck g3)
      in ((w1, w2, w3), fst drawn, snd drawn))"

definition gen_phrase_and_deck ::
  "'g rng \<Rightarrow> int \<Rightarrow> int \<Rightarrow> (string \<times> string \<times> string) \<times> card list" where
  "gen_phrase_and_deck R seed box_id =
     (case build_deck R seed box_id of
        (phrase, deck, g) \<Rightarrow> (phrase, fst (shuffle R deck g)))"

text \<open>
  The generators as the commands call them: \<^verbatim>\<open>/wib_q\<close> previews
  \<^verbatim>\<open>gen_numeric_question(seed + salt, box_id, pcount)\<close>, \<^verbatim>\<open>/wib q_order\<close> previews
  \<^verbatim>\<open>gen_order_question(seed + salt, box_id)\<close>, and \<^verbatim>\<open>ensure_box_secret\<close> stores
  \<^verbatim>\<open>gen_phrase_and_deck(seed, box_id)\<close>.
\<close>

record content =
  question_text :: string
  answer :: int
  order_question :: "(string \<times> string list \<times> int list) option"
  phrase :: "string \<times> string \<times> string"
  deck :: "card list"

definition ContentGenerator :: "'g rng \<Rightarrow> int \<Rightarrow> int \<Rightarrow> int \<Rightarrow> int \<Rightarrow> content" where
  "ContentGenerator R seed box_id salt player_count =
     \<lparr>question_text = fst (gen_numeric_question R (seed + salt) box_id player_count),
      answer = snd (gen_numeric_question R (seed + salt) box_id player_count),
      order_question = gen_order_question R (seed + salt) box_id,
      phrase = fst (gen_phrase_and_deck R seed box_id),
      deck = snd (gen_phrase_and_deck R seed box_id)\<rparr>"



section \<open>Properties\<close>

subsection \<open>Sorting by a key puts a least element first\<close>

lemma sort_key_head_least:
  assumes "xs \<noteq> []"
  shows "\<exists>x ys. sort_key f xs = x # ys \<and> x \<in> set xs \<and> (\<forall>y\<in>set xs. f x \<le> f y)"
proof (cases "sort_key f xs")
  case Nil
  then have "length (sort_key f xs) = 0" by simp
  with assms show ?thesis by simp
next
  case (Cons x ys)
  have srt: "sorted (map f (sort_key f xs))" by simp
  have st: "set (sort_key f xs) = set xs" by simp
  from Cons st have xin: "x \<in> set xs" by auto
  have "\<forall>y\<in>set xs. f x \<le> f y"
  proof
    fix y assume "y \<in> set xs"
    with st Cons have "y = x \<or> y \<in> set ys" by auto
    moreover from srt Cons have "\<forall>z\<in>set ys. f x \<le> f z" by simp
    ultimately show "f x \<le> f y" by auto
  qed
  with Cons xin show ?thesis by blast
qed

subsection \<open>Trivia resolution\<close>

lemma compute_trivia_outcome_winner:
  assumes ne: "box_submissions s box_id \<noteq> []"
  shows "\<exists>r. spec_trivia_winner (box_submissions s box_id) correct r \<and>
             compute_trivia_outcome s box_id correct =
               Some (ts_user_id r, value_int r, value_int r = correct)"
proof (cases "filter (\<lambda>r. value_int r = correct) (box_submissions s box_id) = []")
  case False
  let ?ex = "filter (\<lambda>r. value_int r = correct) (box_submissions s box_id)"
  from sort_key_head_least [OF False, of ts_submitted_at_ms]
  obtain x ys where h: "sort_key ts_submitted_at_ms ?ex = x # ys" "x \<in> set ?ex"
    "\<forall>y\<in>set ?ex. ts_submitted_at_ms x \<le> ts_submitted_at_ms y" by blast
  from h(2) have xv: "value_int x = correct" and xin: "x \<in> set (box_submissions s box_id)"
    by auto
  have "spec_trivia_winner (box_submissions s box_id) correct x"
    unfolding spec_trivia_winner_def using xv xin h(3) by auto
  moreover have "compute_trivia_outcome s box_id correct =
      Some (ts_user_id x, value_int x, value_int x = correct)"
    using ne False h(1) xv by (simp add: compute_trivia_outcome_def Let_def)
  ultimately show ?thesis by blast
next
  case True
  let ?sc = "map (\<lambda>r. (\<bar>value_int r - correct\<bar>, ts_submitted_at_ms r, r))
               (box_submissions s box_id)"
  let ?k = "\<lambda>t::int \<times> int \<times> trivia_submission. (fst t, fst (snd t))"
  from ne have "?sc \<noteq> []" by simp
  from sort_key_head_least [OF this, of ?k]
  obtain t ts where h: "sort_key ?k ?sc = t # ts" "t \<in> set ?sc" "\<forall>y\<in>set ?sc. ?k t \<le> ?k y"
    by blast
  from h(2) obtain r where r: "r \<in> set (box_submissions s box_id)"
    "t = (\<bar>value_int r - correct\<bar>, ts_submitted_at_ms r, r)" by auto
  from True have noex: "\<forall>x\<in>set (box_submissions s box_id). value_int x \<noteq> correct"
    by (simp add: filter_empty_conv)
  have "\<forall>x\<in>set (box_submissions s box_id).
      (\<bar>value_int r - correct\<bar>, ts_submitted_at_ms r) \<le>
      (\<bar>value_int x - correct\<bar>, ts_submitted_at_ms x)"
    using h(3) r(2) by auto
  then have "spec_trivia_winner (box_submissions s box_id) correct r"
    unfolding spec_trivia_winner_def using r(1) noex by (auto simp: less_eq_prod_def)
  moreover have "compute_trivia_outcome s box_id correct =
      Some (ts_user_id r, value_int r, value_int r = correct)"
    using ne True h(1) r noex by (simp add: compute_trivia_outcome_def Let_def)
  ultimately show ?thesis by blast
qed

lemma compute_trivia_outcome_none:
  "box_submissions s box_id = [] \<Longrightarrow> compute_trivia_outcome s box_id correct = None"
  by (simp add: compute_trivia_outcome_def)

lemma reveal_accepted:
  assumes "sessions s = Some sess" "is_locked sess"
    "trivia_rounds s (current_box sess) = Some tr" "tr_is_active tr"
  shows "slot_state (snd (reveal s True)) (current_box sess) =
           Some \<lparr>slot_user_id =
                   map_option fst (compute_trivia_outcome s (current_box sess) (answer_int tr)),
                 turns_left = 0, pending_action = None, pending_msg_id = None\<rparr>"
    and "trivia_rounds (snd (reveal s True)) (current_box sess) =
           Some (tr\<lparr>tr_is_active := False\<rparr>)"
    and "compute_trivia_outcome s (current_box sess) (answer_int tr) = None \<Longrightarrow>
           fst (reveal s True) = Inr NoSubmissions"
  using assms by (auto simp: reveal_def Let_def split: option.splits)

text \<open>
  C1. When \<^verbatim>\<open>/wib reveal\<close> resolves the active trivia round of the current box and the box
  has submissions, the winner is a submission chosen as the specification says: the
  earliest exact match if there is one, otherwise the submission nearest to the correct
  answer, the earlier one on equal distance; the winner becomes the slot holder with no
  turns and no pending action. With no submissions no winner is returned, the reply is
  "No submissions", and the slot of the box has no holder.
\<close>

theorem trivia_resolution:
  assumes "sessions s = Some sess" and "is_locked sess"
    and "trivia_rounds s (current_box sess) = Some tr" and "tr_is_active tr"
  shows "(box_submissions s (current_box sess) \<noteq> [] \<longrightarrow>
            (\<exists>r. spec_trivia_winner (box_submissions s (current_box sess)) (answer_int tr) r \<and>
                 compute_trivia_outcome s (current_box sess) (answer_int tr) =
                   Some (ts_user_id r, value_int r, value_int r = answer_int tr) \<and>
                 slot_state (snd (reveal s True)) (current_box sess) =
                   Some \<lparr>slot_user_id = Some (ts_user_id r), turns_left = 0,
                         pending_action = None, pending_msg_id = None\<rparr>)) \<and>
         (box_submissions s (current_box sess) = [] \<longrightarrow>
            compute_trivia_outcome s (current_box sess) (answer_int tr) = None \<and>
            fst (reveal s True) = Inr NoSubmissions \<and>
            slot_state (snd (reveal s True)) (current_box sess) =
              Some \<lparr>slot_user_id = None, turns_left = 0,
                    pending_action = None, pending_msg_id = None\<rparr>)"
proof (intro conjI impI)
  assume ne: "box_submissions s (current_box sess) \<noteq> []"
  from compute_trivia_outcome_winner [OF ne, of "answer_int tr"]
  obtain r where r: "spec_trivia_winner (box_submissions s (current_box sess)) (answer_int tr) r"
    "compute_trivia_outcome s (current_box sess) (answer_int tr) =
       Some (ts_user_id r, value_int r, value_int r = answer_int tr)" by blast
  from reveal_accepted(1) [OF assms] r(2)
  have "slot_state (snd (reveal s True)) (current_box sess) =
      Some \<lparr>slot_user_id = Some (ts_user_id r), turns_left = 0,
            pending_action = None, pending_msg_id = None\<rparr>" by simp
  with r show "\<exists>r. spec_trivia_winner (box_submissions s (current_box sess)) (answer_int tr) r \<and>
                 compute_trivia_outcome s (current_box sess) (answer_int tr) =
                   Some (ts_user_id r, value_int r, value_int r = answer_int tr) \<and>
                 slot_state (snd (reveal s True)) (current_box sess) =
                   Some \<lparr>slot_user_id = Some (ts_user_id r), turns_left = 0,
                         pending_action = None, pending_msg_id = None\<rparr>" by blast
next
  assume e: "box_submissions s (current_box sess) = []"
  then show n: "compute_trivia_outcome s (current_box sess) (answer_int tr) = None"
    by (rule compute_trivia_outcome_none)
  from reveal_accepted(3) [OF assms n] show "fst (reveal s True) = Inr NoSubmissions" .
  from reveal_accepted(1) [OF assms] n
  show "slot_state (snd (reveal s True)) (current_box sess) =
      Some \<lparr>slot_user_id = None, turns_left = 0,
            pending_action = None, pending_msg_id = None\<rparr>" by simp
qed

text \<open>The theorem at the example of section 8: the exact answer of user 11 wins over the
  earlier, wrong answer of user 12, and user 11 holds the slot.\<close>

theorem trivia_resolution_witness:
  "sessions trivia_example \<noteq> None \<and>
   box_submissions trivia_example 1 \<noteq> [] \<and>
   compute_trivia_outcome trivia_example 1 50 = Some (11, 50, True) \<and>
   (\<exists>r. spec_trivia_winner (box_submissions trivia_example 1) 50 r \<and> ts_user_id r = 11 \<and>
        slot_state (snd (reveal trivia_example True)) 1 =
          Some \<lparr>slot_user_id = Some (ts_user_id r), turns_left = 0,
                pending_action = None, pending_msg_id = None\<rparr>)"
proof -
  let ?sess = "\<lparr>session_seed = 123456, is_locked = True, current_box = 1,
                opened_boxes_count = 0, eliminations_unlocked = False\<rparr>"
  let ?tr = "\<lparr>q_text = ''q'', answer_int = 50, tr_is_active = True\<rparr>"
  have h1: "sessions trivia_example = Some ?sess" by (simp add: trivia_example_def)
  have h2: "is_locked ?sess" by simp
  have h3: "trivia_rounds trivia_example (current_box ?sess) = Some ?tr"
    by (simp add: trivia_example_def)
  have h4: "tr_is_active ?tr" by simp
  have ne: "box_submissions trivia_example 1 \<noteq> []"
    by (simp add: trivia_example_def box_submissions_def)
  have c: "compute_trivia_outcome trivia_example 1 50 = Some (11, 50, True)"
    by (simp add: compute_trivia_outcome_def box_submissions_def trivia_example_def)
  from trivia_resolution [OF h1 h2 h3 h4] ne c
  show ?thesis using h1 by auto
qed

subsection \<open>Revealing a card\<close>

lemma card_effect_rejected:
  "fst (card_effect s s1 b row c t d) = Inl e \<Longrightarrow> snd (card_effect s s1 b row c t d) = s"
  by (simp add: card_effect_def Let_def split: if_splits)

lemma set_pending_action_Some:
  "slot_state s1 b = Some sl1 \<Longrightarrow>
     box_secrets (set_pending_action s1 b a) = box_secrets s1 \<and>
     slot_state (set_pending_action s1 b a) = (slot_state s1)(b \<mapsto> sl1\<lparr>pending_action := Some a\<rparr>)"
  by (simp add: set_pending_action_def)

lemma set_turns_left_Some:
  "slot_state s1 b = Some sl1 \<Longrightarrow>
     box_secrets (set_turns_left s1 b n) = box_secrets s1 \<and>
     slot_state (set_turns_left s1 b n) = (slot_state s1)(b \<mapsto> sl1\<lparr>turns_left := n\<rparr>)"
  by (simp add: set_turns_left_def)

lemma card_effect_accepted:
  assumes "fst (card_effect s s1 b row c t d) = Inr out"
    and "slot_state s1 b = Some sl1" and "turns_left sl1 = t"
  shows "box_secrets (snd (card_effect s s1 b row c t d)) = box_secrets s1 \<and>
         (\<exists>sl'. slot_state (snd (card_effect s s1 b row c t d)) b = Some sl' \<and>
                turns_left sl' = (if out = WildcardResolved BONUS_TURN then min 5 (t + 1) else t))"
  using assms set_pending_action_Some [OF assms(2)] set_turns_left_Some [OF assms(2)]
  by (auto simp: card_effect_def Let_def split: if_splits)

lemma card_effect_turns_nonneg:
  assumes "turns_nonneg s" and "turns_nonneg s1" and "0 \<le> t"
  shows "turns_nonneg (snd (card_effect s s1 b row c t d))"
proof -
  have p: "\<And>a. turns_nonneg (set_pending_action s1 b a)"
    using assms(2) by (auto simp: set_pending_action_def turns_nonneg_def split: option.splits)
  have q: "\<And>n. 0 \<le> n \<Longrightarrow> turns_nonneg (set_turns_left s1 b n)"
    using assms(2) by (auto simp: set_turns_left_def turns_nonneg_def split: option.splits)
  have "0 \<le> min 5 (t + 1)" using assms(3) by simp
  from q [OF this] p assms(1,2) show ?thesis
    by (simp add: card_effect_def Let_def)
qed

lemma CardButton_callback_rejected:
  "fst (CardButton_callback s u i d) = Inl e \<Longrightarrow> snd (CardButton_callback s u i d) = s"
  by (auto simp: CardButton_callback_def Let_def card_effect_rejected
           split: option.splits if_splits)

text \<open>The database after the two updates of an accepted reveal.\<close>

lemma CardButton_callback_passes_gate:
  assumes "fst (CardButton_callback s u i d) = Inr out"
  shows "\<exists>sess sl row.
           sessions s = Some sess \<and>
           slot_state s (current_box sess) = Some sl \<and>
           slot_user_id sl = Some u \<and> 0 < turns_left sl \<and> pending_action sl = None \<and>
           box_secrets s (current_box sess) = Some row \<and> i \<notin> revealed_json row \<and>
           i < length (deck_json row) \<and>
           CardButton_callback s u i d =
             card_effect s
               (set_turns_left
                  (s\<lparr>box_secrets := (box_secrets s)(current_box sess \<mapsto>
                        row\<lparr>revealed_json := insert i (revealed_json row)\<rparr>)\<rparr>)
                  (current_box sess) (turns_left sl - 1))
               (current_box sess) row (deck_json row ! i) (turns_left sl - 1) d"
proof (cases "sessions s")
  case None
  with assms show ?thesis by (simp add: CardButton_callback_def)
next
  case (Some sess)
  note sess = this
  show ?thesis
  proof (cases "slot_state s (current_box sess)")
    case None
    with assms sess show ?thesis by (simp add: CardButton_callback_def)
  next
    case (Some sl)
    note sl = this
    show ?thesis
    proof (cases "slot_user_id sl")
      case None
      with assms sess sl show ?thesis by (simp add: CardButton_callback_def)
    next
      case (Some holder)
      note holder = this
      from assms sess sl holder have g: "holder = u" "0 < turns_left sl" "pending_action sl = None"
        by (auto simp: CardButton_callback_def Let_def split: if_splits)
      show ?thesis
      proof (cases "box_secrets s (current_box sess)")
        case None
        with assms sess sl holder g show ?thesis by (simp add: CardButton_callback_def)
      next
        case (Some row)
        from assms sess sl holder g Some have r: "i \<notin> revealed_json row" "i < length (deck_json row)"
          by (auto simp: CardButton_callback_def Let_def split: if_splits)
        with sess sl holder g Some show ?thesis
          by (simp add: CardButton_callback_def Let_def)
      qed
    qed
  qed
qed

lemma CardButton_callback_accepted:
  assumes "fst (CardButton_callback s u i d) = Inr out"
  shows "\<exists>sess sl row sl' row'.
           sessions s = Some sess \<and>
           slot_state s (current_box sess) = Some sl \<and>
           slot_user_id sl = Some u \<and> 0 < turns_left sl \<and> pending_action sl = None \<and>
           box_secrets s (current_box sess) = Some row \<and> i \<notin> revealed_json row \<and>
           slot_state (snd (CardButton_callback s u i d)) (current_box sess) = Some sl' \<and>
           box_secrets (snd (CardButton_callback s u i d)) (current_box sess) = Some row' \<and>
           revealed_json row' = insert i (revealed_json row) \<and>
           turns_left sl' =
             (if out = WildcardResolved BONUS_TURN then min 5 (turns_left sl)
              else turns_left sl - 1)"
proof -
  from CardButton_callback_passes_gate [OF assms]
  obtain sess sl row where g:
    "sessions s = Some sess" "slot_state s (current_box sess) = Some sl"
    "slot_user_id sl = Some u" "0 < turns_left sl" "pending_action sl = None"
    "box_secrets s (current_box sess) = Some row" "i \<notin> revealed_json row"
    and eq: "CardButton_callback s u i d =
             card_effect s
               (set_turns_left
                  (s\<lparr>box_secrets := (box_secrets s)(current_box sess \<mapsto>
                        row\<lparr>revealed_json := insert i (revealed_json row)\<rparr>)\<rparr>)
                  (current_box sess) (turns_left sl - 1))
               (current_box sess) row (deck_json row ! i) (turns_left sl - 1) d"
    by blast
  let ?s1 = "set_turns_left
                  (s\<lparr>box_secrets := (box_secrets s)(current_box sess \<mapsto>
                        row\<lparr>revealed_json := insert i (revealed_json row)\<rparr>)\<rparr>)
                  (current_box sess) (turns_left sl - 1)"
  have s1: "slot_state ?s1 (current_box sess) = Some (sl\<lparr>turns_left := turns_left sl - 1\<rparr>)"
    "box_secrets ?s1 (current_box sess) = Some (row\<lparr>revealed_json := insert i (revealed_json row)\<rparr>)"
    using g(2) by (simp_all add: set_turns_left_def)
  from assms eq have a: "fst (card_effect s ?s1 (current_box sess) row (deck_json row ! i)
      (turns_left sl - 1) d) = Inr out" by simp
  from card_effect_accepted [OF a s1(1)] s1(2) eq
  have "box_secrets (snd (CardButton_callback s u i d)) (current_box sess) =
          Some (row\<lparr>revealed_json := insert i (revealed_json row)\<rparr>) \<and>
        (\<exists>sl'. slot_state (snd (CardButton_callback s u i d)) (current_box sess) = Some sl' \<and>
               turns_left sl' = (if out = WildcardResolved BONUS_TURN
                                 then min 5 (turns_left sl - 1 + 1) else turns_left sl - 1))"
    by simp
  with g show ?thesis by auto
qed

lemma CardButton_callback_turns_nonneg:
  assumes "turns_nonneg s"
  shows "turns_nonneg (snd (CardButton_callback s u i d))"
proof (cases "fst (CardButton_callback s u i d)")
  case (Inl e)
  from CardButton_callback_rejected [OF this] assms show ?thesis by simp
next
  case (Inr out)
  from CardButton_callback_passes_gate [OF this]
  obtain sess :: session and sl :: slot and row :: box_secret where g:
    "slot_state s (current_box sess) = Some sl" "0 < turns_left sl"
    and eq: "CardButton_callback s u i d =
             card_effect s
               (set_turns_left
                  (s\<lparr>box_secrets := (box_secrets s)(current_box sess \<mapsto>
                        row\<lparr>revealed_json := insert i (revealed_json row)\<rparr>)\<rparr>)
                  (current_box sess) (turns_left sl - 1))
               (current_box sess) row (deck_json row ! i) (turns_left sl - 1) d"
    by blast
  have "turns_nonneg (set_turns_left
                  (s\<lparr>box_secrets := (box_secrets s)(current_box sess \<mapsto>
                        row\<lparr>revealed_json := insert i (revealed_json row)\<rparr>)\<rparr>)
                  (current_box sess) (turns_left sl - 1))"
    using assms g by (auto simp: set_turns_left_def turns_nonneg_def)
  from card_effect_turns_nonneg [OF assms this] g(2) eq show ?thesis by simp
qed

lemma reveals_turns_nonneg: "turns_nonneg s \<Longrightarrow> turns_nonneg (reveals s rs)"
  by (induction s rs rule: reveals.induct) (simp_all add: CardButton_callback_turns_nonneg)

text \<open>
  C2 (amended). A press of a card button is accepted only if the user who pressed is the
  slot holder of the current box, \<open>turns_left > 0\<close>, no pending action is set and the card
  is not yet revealed. A rejected press leaves the database as it was. An accepted press
  adds the index to the revealed set and takes one turn, except that a wildcard resolving to
  \<open>BONUS_TURN\<close> gives the turn back, capped at five: then \<open>turns_left\<close> ends at
  \<open>min 5\<close> of what it was. Under any sequence of presses \<open>turns_left\<close> never becomes
  negative.
\<close>

theorem card_reveal_turn_gated:
  "(\<forall>out. fst (CardButton_callback s u i d) = Inr out \<longrightarrow>
      (\<exists>sess sl row sl' row'.
         sessions s = Some sess \<and>
         slot_state s (current_box sess) = Some sl \<and>
         slot_user_id sl = Some u \<and> 0 < turns_left sl \<and> pending_action sl = None \<and>
         box_secrets s (current_box sess) = Some row \<and> i \<notin> revealed_json row \<and>
         slot_state (snd (CardButton_callback s u i d)) (current_box sess) = Some sl' \<and>
         box_secrets (snd (CardButton_callback s u i d)) (current_box sess) = Some row' \<and>
         revealed_json row' = insert i (revealed_json row) \<and>
         turns_left sl' =
           (if out = WildcardResolved BONUS_TURN then min 5 (turns_left sl)
            else turns_left sl - 1))) \<and>
   (\<forall>e. fst (CardButton_callback s u i d) = Inl e \<longrightarrow>
      snd (CardButton_callback s u i d) = s) \<and>
   (turns_nonneg s \<longrightarrow> turns_nonneg (reveals s presses))"
  using CardButton_callback_accepted [of s u i d] CardButton_callback_rejected [of s u i d]
    reveals_turns_nonneg [of s presses]
  by blast

text \<open>The theorem at the mega-box example: user 1 reveals the piece at index 1 and is left
  with one turn; the same press by user 2 is rejected and changes nothing.\<close>

theorem card_reveal_turn_gated_witness:
  "fst (CardButton_callback wildcard_example 1 1 0) = Inr (PieceRevealed ''ONE'') \<and>
   (\<exists>sl' row'.
      slot_state (snd (CardButton_callback wildcard_example 1 1 0)) 6 = Some sl' \<and>
      box_secrets (snd (CardButton_callback wildcard_example 1 1 0)) 6 = Some row' \<and>
      revealed_json row' = {1} \<and> turns_left sl' = 1) \<and>
   fst (CardButton_callback wildcard_example 2 1 0) = Inl OnlySlotHolderCanReveal \<and>
   snd (CardButton_callback wildcard_example 2 1 0) = wildcard_example \<and>
   turns_nonneg wildcard_example \<and>
   turns_nonneg (reveals wildcard_example [(1, 1, 0), (1, 0, 2), (1, 2, 0), (1, 1, 0)])"
proof -
  have a: "fst (CardButton_callback wildcard_example 1 1 0) = Inr (PieceRevealed ''ONE'')"
    by (simp add: CardButton_callback_def card_effect_def wildcard_example_def
        set_turns_left_def)
  have r: "fst (CardButton_callback wildcard_example 2 1 0) = Inl OnlySlotHolderCanReveal"
    by (simp add: CardButton_callback_def wildcard_example_def)
  have n: "turns_nonneg wildcard_example"
    by (simp add: turns_nonneg_def wildcard_example_def)
  have st: "sessions wildcard_example =
      Some \<lparr>session_seed = 123456, is_locked = True, current_box = 6,
            opened_boxes_count = 5, eliminations_unlocked = True\<rparr>"
    "slot_state wildcard_example 6 =
      Some \<lparr>slot_user_id = Some 1, turns_left = 2, pending_action = None, pending_msg_id = None\<rparr>"
    "map_option revealed_json (box_secrets wildcard_example 6) = Some {}"
    by (simp_all add: wildcard_example_def)
  from card_reveal_turn_gated [of wildcard_example 1 1 0
      "[(1, 1, 0), (1, 0, 2), (1, 2, 0), (1, 1, 0)]"] a n st
  have "(\<exists>sl' row'.
      slot_state (snd (CardButton_callback wildcard_example 1 1 0)) 6 = Some sl' \<and>
      box_secrets (snd (CardButton_callback wildcard_example 1 1 0)) 6 = Some row' \<and>
      revealed_json row' = {1} \<and> turns_left sl' = 1) \<and>
     turns_nonneg (reveals wildcard_example [(1, 1, 0), (1, 0, 2), (1, 2, 0), (1, 1, 0)])"
    by auto
  moreover from card_reveal_turn_gated [of wildcard_example 2 1 0 "[]"] r
  have "snd (CardButton_callback wildcard_example 2 1 0) = wildcard_example" by blast
  ultimately show ?thesis using a r n by blast
qed

text \<open>Against C2 as the specification states it: at the mega box the slot holder has two
  turns and reveals the wildcard at index 0; the process-wide generator draws index 2,
  \<open>BONUS_TURN\<close>. The press is accepted and \<open>turns_left\<close> is two afterwards, not one.\<close>

theorem card_reveal_decrement_counterexample:
  "fst (CardButton_callback wildcard_example 1 0 2) = Inr (WildcardResolved BONUS_TURN) \<and>
   map_option turns_left (slot_state wildcard_example 6) = Some 2 \<and>
   map_option turns_left (slot_state (snd (CardButton_callback wildcard_example 1 0 2)) 6) =
     Some 2"
  by (simp add: CardButton_callback_def card_effect_def wildcard_example_def
      wildcard_effects_def set_turns_left_def)


subsection \<open>The ordering round\<close>

lemma sorted_labels: "sorted [''A'', ''B'', ''C'', ''D'', ''E'']"
  by simp

lemma sort_labels_iff:
  "sort letters = [''A'', ''B'', ''C'', ''D'', ''E''] \<longleftrightarrow>
   mset letters = mset [''A'', ''B'', ''C'', ''D'', ''E'']"
proof
  assume "sort letters = [''A'', ''B'', ''C'', ''D'', ''E'']"
  then have "mset (sort letters) = mset [''A'', ''B'', ''C'', ''D'', ''E'']" by simp
  then show "mset letters = mset [''A'', ''B'', ''C'', ''D'', ''E'']" by simp
next
  assume "mset letters = mset [''A'', ''B'', ''C'', ''D'', ''E'']"
  then have "mset [''A'', ''B'', ''C'', ''D'', ''E''] = mset letters" by simp
  from properties_for_sort [OF this sorted_labels]
  show "sort letters = [''A'', ''B'', ''C'', ''D'', ''E'']" .
qed

lemma ord_label:
  "x \<in> set [''A'', ''B'', ''C'', ''D'', ''E''] \<Longrightarrow> ord x = Inr (label_position x + 65)"
  by (auto simp: ord_def label_position_def)

lemma ords_labels:
  "set xs \<subseteq> set [''A'', ''B'', ''C'', ''D'', ''E''] \<Longrightarrow>
   ords xs = Inr (map (\<lambda>x. label_position x + 65) xs)"
proof (induction xs)
  case Nil
  show ?case by simp
next
  case (Cons x xs)
  from Cons.prems have "x \<in> set [''A'', ''B'', ''C'', ''D'', ''E'']" by simp
  from ord_label [OF this] Cons show ?case by simp
qed

lemma order_turns_labels:
  assumes "length letters = 5" and "length correct = 5"
  shows "order_turns (map (\<lambda>n. n - 65) (map (\<lambda>x. label_position x + 65) letters)) correct =
         Inr (spec_order_score letters correct)"
proof -
  have "filter (\<lambda>i. map (\<lambda>n. n - 65) (map (\<lambda>x. label_position x + 65) letters) ! i = correct ! i) [0..<5]
      = filter (\<lambda>i. label_position (letters ! i) = correct ! i) [0..<5]"
    using assms(1) by (intro filter_cong) auto
  with assms show ?thesis by (simp add: order_turns_def spec_order_score_def)
qed

lemma spec_order_score_bounds: "0 \<le> spec_order_score letters correct \<and> spec_order_score letters correct \<le> 5"
proof -
  have "length (filter (\<lambda>i. label_position (letters ! i) = correct ! i) [0..<5]) \<le> length [0..<5::nat]"
    by (rule length_filter_le)
  then show ?thesis by (simp add: spec_order_score_def)
qed

lemma order_invalid:
  assumes "mset (map (\<lambda>x. upper (strip x)) [a, b, c, d, e]) \<noteq> mset [''A'', ''B'', ''C'', ''D'', ''E'']"
  shows "order s u a b c d e = (Inl InvalidOrder, s)"
proof -
  from assms sort_labels_iff [of "map (\<lambda>x. upper (strip x)) [a, b, c, d, e]"]
  have "sort (map (\<lambda>x. upper (strip x)) [a, b, c, d, e]) \<noteq> [''A'', ''B'', ''C'', ''D'', ''E'']"
    by blast
  then show ?thesis by (simp add: order_def Let_def)
qed

lemma order_valid:
  assumes v: "mset (map (\<lambda>x. upper (strip x)) [a, b, c, d, e]) = mset [''A'', ''B'', ''C'', ''D'', ''E'']"
    and "sessions s = Some sess" and "is_locked sess"
    and "order_rounds s (current_box sess) = Some orow" and "or_is_active orow"
    and "u = or_slot_user_id orow" and len: "length (correct_order_json orow) = 5"
  shows "order s u a b c d e =
           (Inr (spec_order_score (map (\<lambda>x. upper (strip x)) [a, b, c, d, e]) (correct_order_json orow)),
            s\<lparr>order_rounds := (order_rounds s)(current_box sess \<mapsto> orow\<lparr>or_is_active := False\<rparr>),
              slot_state :=
                (case slot_state s (current_box sess) of
                   None \<Rightarrow> slot_state s
                 | Some sl \<Rightarrow>
                     (slot_state s)(current_box sess \<mapsto>
                        sl\<lparr>turns_left := spec_order_score (map (\<lambda>x. upper (strip x)) [a, b, c, d, e])
                                            (correct_order_json orow),
                           pending_action := None\<rparr>))\<rparr>)"
proof -
  let ?letters = "map (\<lambda>x. upper (strip x)) [a, b, c, d, e]"
  from v sort_labels_iff [of ?letters]
  have s: "sort ?letters = [''A'', ''B'', ''C'', ''D'', ''E'']" by blast
  from v have "set ?letters = set [''A'', ''B'', ''C'', ''D'', ''E'']" by (rule mset_eq_setD)
  then have "set ?letters \<subseteq> set [''A'', ''B'', ''C'', ''D'', ''E'']" by blast
  from ords_labels [OF this]
  have o: "ords ?letters = Inr (map (\<lambda>x. label_position x + 65) ?letters)" .
  have "length ?letters = 5" by simp
  from order_turns_labels [OF this len]
  have t: "order_turns (map (\<lambda>n. n - 65) (map (\<lambda>x. label_position x + 65) ?letters))
             (correct_order_json orow) = Inr (spec_order_score ?letters (correct_order_json orow))" .
  show ?thesis
    unfolding order_def Let_def using s o t assms(2-6) by (simp del: list.map)
qed

text \<open>
  C3. An ordering submission whose five labels, trimmed and upper-cased, are not a
  permutation of A, B, C, D, E is rejected as invalid and changes nothing. A valid
  submission by the user the active round of the current box is bound to is scored by the
  number of positions at which the submitted label is the one of the correct permutation;
  the score, between 0 and 5, becomes \<open>turns_left\<close> of the box's slot, the pending action
  of the slot is cleared and the round is no longer active.
\<close>

theorem ordering_submission:
  "(mset (map (\<lambda>x. upper (strip x)) [a, b, c, d, e]) \<noteq> mset [''A'', ''B'', ''C'', ''D'', ''E'']
      \<longrightarrow> order s u a b c d e = (Inl InvalidOrder, s)) \<and>
   (mset (map (\<lambda>x. upper (strip x)) [a, b, c, d, e]) = mset [''A'', ''B'', ''C'', ''D'', ''E''] \<and>
    sessions s = Some sess \<and> is_locked sess \<and>
    order_rounds s (current_box sess) = Some orow \<and> or_is_active orow \<and>
    u = or_slot_user_id orow \<and> length (correct_order_json orow) = 5 \<and>
    slot_state s (current_box sess) = Some sl
      \<longrightarrow> fst (order s u a b c d e) =
            Inr (spec_order_score (map (\<lambda>x. upper (strip x)) [a, b, c, d, e])
                   (correct_order_json orow)) \<and>
          0 \<le> spec_order_score (map (\<lambda>x. upper (strip x)) [a, b, c, d, e])
                 (correct_order_json orow) \<and>
          spec_order_score (map (\<lambda>x. upper (strip x)) [a, b, c, d, e])
            (correct_order_json orow) \<le> 5 \<and>
          slot_state (snd (order s u a b c d e)) (current_box sess) =
            Some (sl\<lparr>turns_left :=
                        spec_order_score (map (\<lambda>x. upper (strip x)) [a, b, c, d, e])
                          (correct_order_json orow),
                      pending_action := None\<rparr>) \<and>
          order_rounds (snd (order s u a b c d e)) (current_box sess) =
            Some (orow\<lparr>or_is_active := False\<rparr>))"
proof (intro conjI impI)
  assume "mset (map (\<lambda>x. upper (strip x)) [a, b, c, d, e]) \<noteq> mset [''A'', ''B'', ''C'', ''D'', ''E'']"
  then show "order s u a b c d e = (Inl InvalidOrder, s)" by (rule order_invalid)
next
  assume h: "mset (map (\<lambda>x. upper (strip x)) [a, b, c, d, e]) = mset [''A'', ''B'', ''C'', ''D'', ''E''] \<and>
    sessions s = Some sess \<and> is_locked sess \<and>
    order_rounds s (current_box sess) = Some orow \<and> or_is_active orow \<and>
    u = or_slot_user_id orow \<and> length (correct_order_json orow) = 5 \<and>
    slot_state s (current_box sess) = Some sl"
  let ?score = "spec_order_score (map (\<lambda>x. upper (strip x)) [a, b, c, d, e]) (correct_order_json orow)"
  from h have eq: "order s u a b c d e =
           (Inr ?score,
            s\<lparr>order_rounds := (order_rounds s)(current_box sess \<mapsto> orow\<lparr>or_is_active := False\<rparr>),
              slot_state :=
                (case slot_state s (current_box sess) of
                   None \<Rightarrow> slot_state s
                 | Some sl \<Rightarrow>
                     (slot_state s)(current_box sess \<mapsto>
                        sl\<lparr>turns_left := ?score, pending_action := None\<rparr>))\<rparr>)"
    by (intro order_valid) simp_all
  show "fst (order s u a b c d e) = Inr ?score" by (simp only: eq fst_conv)
  show "0 \<le> ?score" "?score \<le> 5" using spec_order_score_bounds by blast+
  from h have sl: "slot_state s (current_box sess) = Some sl" by blast
  show "slot_state (snd (order s u a b c d e)) (current_box sess) =
            Some (sl\<lparr>turns_left := ?score, pending_action := None\<rparr>)"
    unfolding eq snd_conv by (simp add: sl del: list.map)
  show "order_rounds (snd (order s u a b c d e)) (current_box sess) =
            Some (orow\<lparr>or_is_active := False\<rparr>)"
    unfolding eq snd_conv by simp
qed

text \<open>The theorem at the example: user 7 submits \<^verbatim>\<open>" c", "a ", "E", "d", "b"\<close> against
  the correct permutation C A E B D and earns three turns, and the stale \<open>PASS\<close> is
  cleared; a submission with A twice is rejected and changes nothing.\<close>

theorem ordering_submission_witness:
  "fst (order order_example 7 '' c'' ''a '' ''E'' ''d'' ''b'') = Inr 3 \<and>
   slot_state (snd (order order_example 7 '' c'' ''a '' ''E'' ''d'' ''b'')) 2 =
     Some \<lparr>slot_user_id = Some 7, turns_left = 3, pending_action = None, pending_msg_id = None\<rparr> \<and>
   map_option or_is_active
     (order_rounds (snd (order order_example 7 '' c'' ''a '' ''E'' ''d'' ''b'')) 2) = Some False \<and>
   order order_example 7 ''A'' ''A'' ''B'' ''C'' ''D'' = (Inl InvalidOrder, order_example)"
proof -
  let ?sess = "\<lparr>session_seed = 123456, is_locked = True, current_box = 2,
                opened_boxes_count = 1, eliminations_unlocked = False\<rparr>"
  let ?orow = "\<lparr>or_slot_user_id = 7, or_prompt = ''p'', items_json = [],
                correct_order_json = [2, 0, 4, 1, 3], or_is_active = True\<rparr>"
  let ?sl = "\<lparr>slot_user_id = Some 7, turns_left = 0,
              pending_action = Some PASS, pending_msg_id = None\<rparr>"
  let ?in = "map (\<lambda>x. upper (strip x)) ['' c'', ''a '', ''E'', ''d'', ''b'']"
  let ?bad = "map (\<lambda>x. upper (strip x)) [''A'', ''A'', ''B'', ''C'', ''D'']"
  have l: "?in = [''C'', ''A'', ''E'', ''D'', ''B'']" by code_simp
  have l2: "?bad = [''A'', ''A'', ''B'', ''C'', ''D'']" by code_simp
  have sc: "spec_order_score ?in [2, 0, 4, 1, 3] = 3"
    unfolding l by (simp add: spec_order_score_def label_position_def upt_rec)
  have v: "mset ?in = mset [''A'', ''B'', ''C'', ''D'', ''E'']"
    unfolding l by (simp add: add_mset_commute)
  have nv: "mset ?bad \<noteq> mset [''A'', ''B'', ''C'', ''D'', ''E'']"
  proof
    assume "mset ?bad = mset [''A'', ''B'', ''C'', ''D'', ''E'']"
    then have "set ?bad = set [''A'', ''B'', ''C'', ''D'', ''E'']"
      by (rule mset_eq_setD)
    then have "''E'' \<in> set ?bad" by simp
    then show False unfolding l2 by simp
  qed
  have st: "sessions order_example = Some ?sess" "order_rounds order_example 2 = Some ?orow"
    "slot_state order_example 2 = Some ?sl"
    by (simp_all add: order_example_def)
  have hyp: "mset ?in = mset [''A'', ''B'', ''C'', ''D'', ''E''] \<and>
    sessions order_example = Some ?sess \<and> is_locked ?sess \<and>
    order_rounds order_example (current_box ?sess) = Some ?orow \<and> or_is_active ?orow \<and>
    7 = or_slot_user_id ?orow \<and> length (correct_order_json ?orow) = 5 \<and>
    slot_state order_example (current_box ?sess) = Some ?sl"
    using st by (intro conjI v) simp_all
  note t = ordering_submission [of " '' c''" "''a ''" "''E''" "''d''" "''b''" order_example 7 ?sess ?orow ?sl]
  from t [THEN conjunct2, THEN mp, OF hyp]
  have "fst (order order_example 7 '' c'' ''a '' ''E'' ''d'' ''b'') = Inr 3 \<and>
   slot_state (snd (order order_example 7 '' c'' ''a '' ''E'' ''d'' ''b'')) 2 =
     Some \<lparr>slot_user_id = Some 7, turns_left = 3, pending_action = None, pending_msg_id = None\<rparr> \<and>
   map_option or_is_active
     (order_rounds (snd (order order_example 7 '' c'' ''a '' ''E'' ''d'' ''b'')) 2) = Some False"
    using sc [unfolded l] unfolding l by simp
  moreover from ordering_submission [of "''A''" "''A''" "''B''" "''C''" "''D''" order_example 7 ?sess ?orow ?sl,
      THEN conjunct1, THEN mp, OF nv]
  have "order order_example 7 ''A'' ''A'' ''B'' ''C'' ''D'' = (Inl InvalidOrder, order_example)" .
  ultimately show ?thesis by blast
qed


subsection \<open>The puzzle ledger\<close>

lemma compute_puzzle_position_score_bounds:
  "0 \<le> compute_puzzle_position_score c w \<and> compute_puzzle_position_score c w \<le> 3"
  by (cases c; cases w) auto

lemma latest_unchecked_none:
  "unchecked_attempts s b = [] \<Longrightarrow> latest_unchecked s b = None"
  by (simp add: latest_unchecked_def unchecked_attempts_def)

lemma latest_unchecked_some:
  assumes "unchecked_attempts s b \<noteq> []"
  shows "\<exists>a. latest_unchecked s b = Some a \<and> a \<in> set (unchecked_attempts s b) \<and>
             (\<forall>x\<in>set (unchecked_attempts s b). attempt_id x \<le> attempt_id a)"
proof -
  from sort_key_head_least [OF assms, of "\<lambda>a. - attempt_id a"]
  obtain a ys where h: "sort_key (\<lambda>a. - attempt_id a) (unchecked_attempts s b) = a # ys"
    "a \<in> set (unchecked_attempts s b)"
    "\<forall>y\<in>set (unchecked_attempts s b). - attempt_id a \<le> - attempt_id y" by blast
  from h(1) have "latest_unchecked s b = Some a"
    by (simp add: latest_unchecked_def unchecked_attempts_def)
  with h(2,3) show ?thesis by auto
qed

lemma next_closest_none:
  assumes "filter (\<lambda>a. pa_box_id a = b \<and> \<not> checked a \<and> attempt_id a \<noteq> ex) (puzzle_attempts s) = []"
  shows "next_closest_puzzle_attempt s b correct ex = None"
  using assms by (simp add: next_closest_puzzle_attempt_def)

lemma next_closest_some:
  assumes "filter (\<lambda>a. pa_box_id a = b \<and> \<not> checked a \<and> attempt_id a \<noteq> ex) (puzzle_attempts s) \<noteq> []"
  shows "\<exists>n. next_closest_puzzle_attempt s b correct ex = Some n \<and>
             spec_next_closest correct
               (filter (\<lambda>a. pa_box_id a = b \<and> \<not> checked a \<and> attempt_id a \<noteq> ex) (puzzle_attempts s)) n"
proof -
  let ?rest = "filter (\<lambda>a. pa_box_id a = b \<and> \<not> checked a \<and> attempt_id a \<noteq> ex) (puzzle_attempts s)"
  let ?sc = "map (\<lambda>a. (compute_puzzle_position_score correct (guess a), pa_submitted_at_ms a, a)) ?rest"
  let ?k = "\<lambda>t::int \<times> int \<times> puzzle_attempt. (- fst t, fst (snd t))"
  from assms have "?sc \<noteq> []" by simp
  from sort_key_head_least [OF this, of ?k]
  obtain t ts where h: "sort_key ?k ?sc = t # ts" "t \<in> set ?sc" "\<forall>y\<in>set ?sc. ?k t \<le> ?k y"
    by blast
  from h(2) obtain n where n: "n \<in> set ?rest"
    "t = (compute_puzzle_position_score correct (guess n), pa_submitted_at_ms n, n)" by auto
  have "\<forall>x\<in>set ?rest.
      (- compute_puzzle_position_score correct (guess n), pa_submitted_at_ms n) \<le>
      (- compute_puzzle_position_score correct (guess x), pa_submitted_at_ms x)"
    using h(3) n(2) by auto
  then have "spec_next_closest correct ?rest n"
    unfolding spec_next_closest_def using n(1) by (auto simp: less_eq_prod_def)
  moreover have "next_closest_puzzle_attempt s b correct ex = Some n"
    using assms h(1) n(2) by (simp add: next_closest_puzzle_attempt_def Let_def)
  ultimately show ?thesis by blast
qed

text \<open>Marking the attempt checked does not touch the rows the next-closest query reads.\<close>

lemma filter_rest_mark_checked:
  "filter (\<lambda>a. pa_box_id a = b \<and> \<not> checked a \<and> attempt_id a \<noteq> ex)
     (map (mark_checked b ex sc) xs) =
   filter (\<lambda>a. pa_box_id a = b \<and> \<not> checked a \<and> attempt_id a \<noteq> ex) xs"
  by (induction xs) (auto simp: mark_checked_def)

lemma check_puzzle_pending:
  assumes "sessions s = Some sess" and "box_secrets s (current_box sess) = Some secret"
    and "latest_unchecked s (current_box sess) = Some a"
  shows "check_puzzle s True =
     (if compute_puzzle_position_score (phrase_words secret) (guess a) = 3 then
        (Inr Solved,
         update_slot
           (s\<lparr>puzzle_attempts :=
                map (mark_checked (current_box sess) (attempt_id a)
                       (compute_puzzle_position_score (phrase_words secret) (guess a)))
                  (puzzle_attempts s)\<rparr>)
           (current_box sess) (\<lambda>sl. sl\<lparr>turns_left := 0, pending_action := None\<rparr>))
      else
        case next_closest_puzzle_attempt
               (s\<lparr>puzzle_attempts :=
                    map (mark_checked (current_box sess) (attempt_id a)
                           (compute_puzzle_position_score (phrase_words secret) (guess a)))
                      (puzzle_attempts s)\<rparr>)
               (current_box sess) (phrase_words secret) (attempt_id a) of
          None \<Rightarrow>
            (Inr (NotSolved (compute_puzzle_position_score (phrase_words secret) (guess a)) None),
             s\<lparr>puzzle_attempts :=
                 map (mark_checked (current_box sess) (attempt_id a)
                        (compute_puzzle_position_score (phrase_words secret) (guess a)))
                   (puzzle_attempts s)\<rparr>)
        | Some nxt \<Rightarrow>
            (Inr (NotSolved (compute_puzzle_position_score (phrase_words secret) (guess a))
                    (Some (pa_user_id nxt))),
             update_slot
               (s\<lparr>puzzle_attempts :=
                    map (mark_checked (current_box sess) (attempt_id a)
                           (compute_puzzle_position_score (phrase_words secret) (guess a)))
                      (puzzle_attempts s)\<rparr>)
               (current_box sess)
               (\<lambda>sl. sl\<lparr>slot_user_id := Some (pa_user_id nxt), turns_left := 0,
                         pending_action := None\<rparr>)))"
  using assms by (simp add: check_puzzle_def Let_def)

lemma update_slot_marked:
  assumes "slot_state s b = Some sl"
  shows "slot_state (update_slot (s\<lparr>puzzle_attempts := xs\<rparr>) b f) b = Some (f sl)"
    and "puzzle_attempts (update_slot (s\<lparr>puzzle_attempts := xs\<rparr>) b f) = xs"
  using assms by (simp_all add: update_slot_def)

lemma check_puzzle_checked:
  assumes sess: "sessions s = Some sess" and sec: "box_secrets s (current_box sess) = Some secret"
    and sl: "slot_state s (current_box sess) = Some sl"
    and ne: "unchecked_attempts s (current_box sess) \<noteq> []"
  shows "\<exists>a. a \<in> set (unchecked_attempts s (current_box sess)) \<and>
      (\<forall>x\<in>set (unchecked_attempts s (current_box sess)). attempt_id x \<le> attempt_id a) \<and>
      0 \<le> compute_puzzle_position_score (phrase_words secret) (guess a) \<and>
      compute_puzzle_position_score (phrase_words secret) (guess a) \<le> 3 \<and>
      puzzle_attempts (snd (check_puzzle s True)) =
        map (mark_checked (current_box sess) (attempt_id a)
               (compute_puzzle_position_score (phrase_words secret) (guess a)))
          (puzzle_attempts s) \<and>
      (compute_puzzle_position_score (phrase_words secret) (guess a) = 3 \<longrightarrow>
         fst (check_puzzle s True) = Inr Solved \<and>
         slot_state (snd (check_puzzle s True)) (current_box sess) =
           Some (sl\<lparr>turns_left := 0, pending_action := None\<rparr>)) \<and>
      (compute_puzzle_position_score (phrase_words secret) (guess a) \<noteq> 3 \<longrightarrow>
         (filter (\<lambda>x. attempt_id x \<noteq> attempt_id a) (unchecked_attempts s (current_box sess)) = []
            \<longrightarrow> fst (check_puzzle s True) =
                   Inr (NotSolved (compute_puzzle_position_score (phrase_words secret) (guess a)) None) \<and>
                slot_state (snd (check_puzzle s True)) = slot_state s) \<and>
         (filter (\<lambda>x. attempt_id x \<noteq> attempt_id a) (unchecked_attempts s (current_box sess)) \<noteq> []
            \<longrightarrow> (\<exists>n. spec_next_closest (phrase_words secret)
                        (filter (\<lambda>x. attempt_id x \<noteq> attempt_id a)
                           (unchecked_attempts s (current_box sess))) n \<and>
                     fst (check_puzzle s True) =
                       Inr (NotSolved (compute_puzzle_position_score (phrase_words secret) (guess a))
                              (Some (pa_user_id n))) \<and>
                     slot_state (snd (check_puzzle s True)) (current_box sess) =
                       Some (sl\<lparr>slot_user_id := Some (pa_user_id n), turns_left := 0,
                                pending_action := None\<rparr>))))"
proof -
  let ?b = "current_box sess"
  from latest_unchecked_some [OF ne]
  obtain a where a: "latest_unchecked s ?b = Some a" "a \<in> set (unchecked_attempts s ?b)"
    "\<forall>x\<in>set (unchecked_attempts s ?b). attempt_id x \<le> attempt_id a" by blast
  let ?sc = "compute_puzzle_position_score (phrase_words secret) (guess a)"
  let ?s1 = "s\<lparr>puzzle_attempts := map (mark_checked ?b (attempt_id a) ?sc) (puzzle_attempts s)\<rparr>"
  let ?rest = "filter (\<lambda>x. attempt_id x \<noteq> attempt_id a) (unchecked_attempts s ?b)"
  note cp = check_puzzle_pending [OF sess sec a(1)]
  have rest: "filter (\<lambda>x. pa_box_id x = ?b \<and> \<not> checked x \<and> attempt_id x \<noteq> attempt_id a)
                (puzzle_attempts ?s1) = ?rest"
  proof -
    have "filter (\<lambda>x. pa_box_id x = ?b \<and> \<not> checked x \<and> attempt_id x \<noteq> attempt_id a)
            (puzzle_attempts ?s1) =
          filter (\<lambda>x. pa_box_id x = ?b \<and> \<not> checked x \<and> attempt_id x \<noteq> attempt_id a)
            (puzzle_attempts s)"
      by (simp add: filter_rest_mark_checked)
    also have "\<dots> = ?rest"
      unfolding unchecked_attempts_def filter_filter by (rule filter_cong) auto
    finally show ?thesis .
  qed
  have solved: "?sc = 3 \<Longrightarrow> check_puzzle s True =
      (Inr Solved, update_slot ?s1 ?b (\<lambda>sl. sl\<lparr>turns_left := 0, pending_action := None\<rparr>))"
    using cp by simp
  have none: "?sc \<noteq> 3 \<Longrightarrow> ?rest = [] \<Longrightarrow> check_puzzle s True = (Inr (NotSolved ?sc None), ?s1)"
  proof -
    assume "?sc \<noteq> 3" "?rest = []"
    with rest have "next_closest_puzzle_attempt ?s1 ?b (phrase_words secret) (attempt_id a) = None"
      by (intro next_closest_none) simp
    with cp \<open>?sc \<noteq> 3\<close> show ?thesis by simp
  qed
  have some: "?sc \<noteq> 3 \<Longrightarrow> ?rest \<noteq> [] \<Longrightarrow>
      \<exists>n. spec_next_closest (phrase_words secret) ?rest n \<and>
          check_puzzle s True =
            (Inr (NotSolved ?sc (Some (pa_user_id n))),
             update_slot ?s1 ?b (\<lambda>sl. sl\<lparr>slot_user_id := Some (pa_user_id n), turns_left := 0,
                                         pending_action := None\<rparr>))"
  proof -
    assume ns: "?sc \<noteq> 3" and "?rest \<noteq> []"
    with rest have "filter (\<lambda>x. pa_box_id x = ?b \<and> \<not> checked x \<and> attempt_id x \<noteq> attempt_id a)
                (puzzle_attempts ?s1) \<noteq> []" by simp
    from next_closest_some [OF this, of "phrase_words secret"] rest
    obtain n where n: "next_closest_puzzle_attempt ?s1 ?b (phrase_words secret) (attempt_id a) = Some n"
      "spec_next_closest (phrase_words secret) ?rest n" by auto
    from cp ns n(1) have "check_puzzle s True =
            (Inr (NotSolved ?sc (Some (pa_user_id n))),
             update_slot ?s1 ?b (\<lambda>sl. sl\<lparr>slot_user_id := Some (pa_user_id n), turns_left := 0,
                                         pending_action := None\<rparr>))" by simp
    with n(2) show ?thesis by blast
  qed
  have marked: "puzzle_attempts (snd (check_puzzle s True)) =
      map (mark_checked ?b (attempt_id a) ?sc) (puzzle_attempts s)"
  proof (cases "?sc = 3")
    case True
    from solved [OF True] update_slot_marked(2) [OF sl] show ?thesis by simp
  next
    case False
    show ?thesis
    proof (cases "?rest = []")
      case True
      from none [OF False True] show ?thesis by simp
    next
      case r: False
      from some [OF False r] update_slot_marked(2) [OF sl] show ?thesis by auto
    qed
  qed
  have c1: "?sc = 3 \<longrightarrow> fst (check_puzzle s True) = Inr Solved \<and>
         slot_state (snd (check_puzzle s True)) ?b = Some (sl\<lparr>turns_left := 0, pending_action := None\<rparr>)"
    using solved update_slot_marked(1) [OF sl] by simp
  have c2: "?sc \<noteq> 3 \<longrightarrow> ?rest = [] \<longrightarrow> fst (check_puzzle s True) = Inr (NotSolved ?sc None) \<and>
                slot_state (snd (check_puzzle s True)) = slot_state s"
    using none by simp
  have c3: "?sc \<noteq> 3 \<longrightarrow> ?rest \<noteq> [] \<longrightarrow>
      (\<exists>n. spec_next_closest (phrase_words secret) ?rest n \<and>
            fst (check_puzzle s True) = Inr (NotSolved ?sc (Some (pa_user_id n))) \<and>
            slot_state (snd (check_puzzle s True)) ?b =
              Some (sl\<lparr>slot_user_id := Some (pa_user_id n), turns_left := 0, pending_action := None\<rparr>))"
  proof (intro impI)
    assume "?sc \<noteq> 3" "?rest \<noteq> []"
    from some [OF this] obtain n where n: "spec_next_closest (phrase_words secret) ?rest n"
      "check_puzzle s True =
            (Inr (NotSolved ?sc (Some (pa_user_id n))),
             update_slot ?s1 ?b (\<lambda>sl. sl\<lparr>slot_user_id := Some (pa_user_id n), turns_left := 0,
                                         pending_action := None\<rparr>))" by blast
    from n(2) update_slot_marked(1) [OF sl]
    have "fst (check_puzzle s True) = Inr (NotSolved ?sc (Some (pa_user_id n))) \<and>
            slot_state (snd (check_puzzle s True)) ?b =
              Some (sl\<lparr>slot_user_id := Some (pa_user_id n), turns_left := 0, pending_action := None\<rparr>)"
      by simp
    with n(1) show "\<exists>n. spec_next_closest (phrase_words secret) ?rest n \<and>
            fst (check_puzzle s True) = Inr (NotSolved ?sc (Some (pa_user_id n))) \<and>
            slot_state (snd (check_puzzle s True)) ?b =
              Some (sl\<lparr>slot_user_id := Some (pa_user_id n), turns_left := 0, pending_action := None\<rparr>)"
      by blast
  qed
  have b: "0 \<le> ?sc" "?sc \<le> 3"
    using compute_puzzle_position_score_bounds [of "phrase_words secret" "guess a"] by simp_all
  from a(2,3) b marked c1 c2 c3 show ?thesis by blast
qed

text \<open>
  C4 (amended). \<^verbatim>\<open>/wib check_puzzle\<close> by a host, for a current box with its secret and its
  slot row: with no unchecked attempt for the box nothing changes. Otherwise the unchecked
  attempt with the greatest attempt id is scored by the number of words equal to the
  phrase's word in the same position, a score between 0 and 3, and is marked checked with
  that score. On score 3 the slot's turns and pending action are cleared. On a lower score
  the slot goes, with no turns and no pending action, to the author of the attempt that is
  first among the other unchecked attempts of the box by score descending, then by
  submission time ascending; when no other unchecked attempt remains, the slot is left as
  it is, so the slot holder stays.
\<close>

theorem puzzle_check:
  assumes "sessions s = Some sess" and "box_secrets s (current_box sess) = Some secret"
    and "slot_state s (current_box sess) = Some sl"
  shows
    "(unchecked_attempts s (current_box sess) = [] \<longrightarrow>
        check_puzzle s True = (Inl NoPendingPuzzleAttempts, s)) \<and>
     (unchecked_attempts s (current_box sess) \<noteq> [] \<longrightarrow>
        (\<exists>a. a \<in> set (unchecked_attempts s (current_box sess)) \<and>
           (\<forall>x\<in>set (unchecked_attempts s (current_box sess)). attempt_id x \<le> attempt_id a) \<and>
           0 \<le> compute_puzzle_position_score (phrase_words secret) (guess a) \<and>
           compute_puzzle_position_score (phrase_words secret) (guess a) \<le> 3 \<and>
           puzzle_attempts (snd (check_puzzle s True)) =
             map (mark_checked (current_box sess) (attempt_id a)
                    (compute_puzzle_position_score (phrase_words secret) (guess a)))
               (puzzle_attempts s) \<and>
           (compute_puzzle_position_score (phrase_words secret) (guess a) = 3 \<longrightarrow>
              fst (check_puzzle s True) = Inr Solved \<and>
              slot_state (snd (check_puzzle s True)) (current_box sess) =
                Some (sl\<lparr>turns_left := 0, pending_action := None\<rparr>)) \<and>
           (compute_puzzle_position_score (phrase_words secret) (guess a) \<noteq> 3 \<longrightarrow>
              (filter (\<lambda>x. attempt_id x \<noteq> attempt_id a)
                 (unchecked_attempts s (current_box sess)) = [] \<longrightarrow>
                 fst (check_puzzle s True) =
                   Inr (NotSolved
                          (compute_puzzle_position_score (phrase_words secret) (guess a)) None) \<and>
                 slot_state (snd (check_puzzle s True)) = slot_state s) \<and>
              (filter (\<lambda>x. attempt_id x \<noteq> attempt_id a)
                 (unchecked_attempts s (current_box sess)) \<noteq> [] \<longrightarrow>
                 (\<exists>n. spec_next_closest (phrase_words secret)
                         (filter (\<lambda>x. attempt_id x \<noteq> attempt_id a)
                            (unchecked_attempts s (current_box sess))) n \<and>
                      fst (check_puzzle s True) =
                        Inr (NotSolved
                               (compute_puzzle_position_score (phrase_words secret) (guess a))
                               (Some (pa_user_id n))) \<and>
                      slot_state (snd (check_puzzle s True)) (current_box sess) =
                        Some (sl\<lparr>slot_user_id := Some (pa_user_id n), turns_left := 0,
                                 pending_action := None\<rparr>))))))"
    (is "_ \<and> (_ \<longrightarrow> ?Q)")
proof (intro conjI impI)
  assume "unchecked_attempts s (current_box sess) = []"
  from latest_unchecked_none [OF this] assms(1,2)
  show "check_puzzle s True = (Inl NoPendingPuzzleAttempts, s)"
    by (simp add: check_puzzle_def)
next
  assume ne: "unchecked_attempts s (current_box sess) \<noteq> []"
  from check_puzzle_checked [OF assms ne] show ?Q .
qed

text \<open>The theorem at the rotation example: attempt 5 is checked and scores 0; of the
  remaining attempts 2 and 3 score 2, attempt 3 is the earlier, so user 23 gets the slot.\<close>

theorem puzzle_check_witness:
  "fst (check_puzzle puzzle_example True) = Inr (NotSolved 0 (Some 23)) \<and>
   slot_state (snd (check_puzzle puzzle_example True)) 2 =
     Some \<lparr>slot_user_id = Some 23, turns_left = 0, pending_action = None, pending_msg_id = None\<rparr> \<and>
   unchecked_attempts puzzle_example 2 \<noteq> [] \<and>
   (\<exists>a. a \<in> set (unchecked_attempts puzzle_example 2) \<and>
      puzzle_attempts (snd (check_puzzle puzzle_example True)) =
        map (mark_checked 2 (attempt_id a)
               (compute_puzzle_position_score (''ONE'', ''FINE'', ''AFTERNOON'') (guess a)))
          (puzzle_attempts puzzle_example))"
proof -
  let ?sess = "\<lparr>session_seed = 123456, is_locked = True, current_box = 2,
                opened_boxes_count = 1, eliminations_unlocked = False\<rparr>"
  let ?secret = "\<lparr>phrase_w1 = ''ONE'', phrase_w2 = ''FINE'', phrase_w3 = ''AFTERNOON'',
                  deck_json = [], revealed_json = {}\<rparr>"
  let ?sl = "\<lparr>slot_user_id = Some 25, turns_left = 1, pending_action = None, pending_msg_id = None\<rparr>"
  have h1: "sessions puzzle_example = Some ?sess" by (simp add: puzzle_example_def)
  have h2: "box_secrets puzzle_example (current_box ?sess) = Some ?secret"
    by (simp add: puzzle_example_def)
  have h3: "slot_state puzzle_example (current_box ?sess) = Some ?sl"
    by (simp add: puzzle_example_def)
  have ne: "unchecked_attempts puzzle_example 2 \<noteq> []"
    by (simp add: unchecked_attempts_def puzzle_example_def)
  have e: "check_puzzle puzzle_example True =
      (Inr (NotSolved 0 (Some 23)),
       update_slot
         (puzzle_example\<lparr>puzzle_attempts :=
            map (mark_checked 2 5 0) (puzzle_attempts puzzle_example)\<rparr>) 2
         (\<lambda>sl. sl\<lparr>slot_user_id := Some 23, turns_left := 0, pending_action := None\<rparr>))"
    by (simp add: check_puzzle_def latest_unchecked_def next_closest_puzzle_attempt_def
        phrase_words_def guess_def mark_checked_def puzzle_example_def)
  have r: "slot_state (snd (check_puzzle puzzle_example True)) 2 =
     Some \<lparr>slot_user_id = Some 23, turns_left = 0, pending_action = None, pending_msg_id = None\<rparr>"
    unfolding e by (simp add: update_slot_def puzzle_example_def)
  from puzzle_check [OF h1 h2 h3, THEN conjunct2, THEN mp] ne
  have "\<exists>a. a \<in> set (unchecked_attempts puzzle_example 2) \<and>
      puzzle_attempts (snd (check_puzzle puzzle_example True)) =
        map (mark_checked 2 (attempt_id a)
               (compute_puzzle_position_score (''ONE'', ''FINE'', ''AFTERNOON'') (guess a)))
          (puzzle_attempts puzzle_example)"
    by (simp add: phrase_words_def) blast
  with e r ne show ?thesis by simp
qed

text \<open>Against C4 as the specification states it: the slot holder's only attempt is
  checked and is wrong (one word in place); no unchecked attempt remains, and user 25
  still holds the slot, with the turn they had.\<close>

theorem puzzle_check_slot_kept_counterexample:
  "fst (check_puzzle last_attempt_example True) = Inr (NotSolved 1 None) \<and>
   unchecked_attempts (snd (check_puzzle last_attempt_example True)) 2 = [] \<and>
   slot_state (snd (check_puzzle last_attempt_example True)) 2 =
     Some \<lparr>slot_user_id = Some 25, turns_left = 1, pending_action = None, pending_msg_id = None\<rparr>"
  by (simp add: check_puzzle_def latest_unchecked_def next_closest_puzzle_attempt_def
      phrase_words_def guess_def mark_checked_def unchecked_attempts_def
      last_attempt_example_def puzzle_example_def)


subsection \<open>Submitting a guess\<close>

lemma max_attempt_id_empty:
  "\<forall>a\<in>set (puzzle_attempts s). pa_box_id a \<noteq> b \<Longrightarrow> max_attempt_id s b = 0"
  by (simp add: max_attempt_id_def filter_empty_conv)

lemma max_attempt_id_upper:
  assumes "a \<in> set (puzzle_attempts s)" and "pa_box_id a = b"
  shows "attempt_id a \<le> max_attempt_id s b"
proof -
  let ?ids = "map attempt_id (filter (\<lambda>a. pa_box_id a = b) (puzzle_attempts s))"
  from assms have m: "attempt_id a \<in> set ?ids" by auto
  then obtain i ids where c: "?ids = i # ids" by (cases ?ids) auto
  have "fold max ids i = Max (set (i # ids))" by (rule Max.set_eq_fold [symmetric])
  with c have "max_attempt_id s b = Max (set (i # ids))"
    by (simp only: max_attempt_id_def list.case)
  moreover from m c have "attempt_id a \<le> Max (set (i # ids))" by (intro Max_ge) simp_all
  ultimately show ?thesis by simp
qed

text \<open>The form handler has no guard: on every database and for every user it stores the
  guess.\<close>

lemma PuzzleModal_on_submit_stores:
  "PuzzleModal_on_submit s' b u w1 w2 w3 t =
     (max_attempt_id s' b + 1,
      s'\<lparr>puzzle_attempts := puzzle_attempts s' @
           [\<lparr>pa_box_id = b, attempt_id = max_attempt_id s' b + 1, pa_user_id = u,
             g1 = norm_word w1, g2 = norm_word w2, g3 = norm_word w3,
             pa_submitted_at_ms = t, checked = False, score_positions = 0\<rparr>]\<rparr>)"
  by (simp add: PuzzleModal_on_submit_def Let_def)

lemma submit_puzzle_guess_rejected:
  assumes "\<not> (\<exists>sl. slot_state s b = Some sl \<and> slot_user_id sl = Some u)"
  shows "submit_puzzle_guess s s' b u w1 w2 w3 t = (Inl OnlySlotHolderCanSubmit, s)"
  using assms
  by (auto simp: submit_puzzle_guess_def submit_puzzle_def split: option.splits)

lemma submit_puzzle_guess_accepted:
  assumes "slot_state s b = Some sl" and "slot_user_id sl = Some u"
  shows "submit_puzzle_guess s s' b u w1 w2 w3 t =
     (Inr (max_attempt_id s' b + 1),
      s'\<lparr>puzzle_attempts := puzzle_attempts s' @
           [\<lparr>pa_box_id = b, attempt_id = max_attempt_id s' b + 1, pa_user_id = u,
             g1 = norm_word w1, g2 = norm_word w2, g3 = norm_word w3,
             pa_submitted_at_ms = t, checked = False, score_positions = 0\<rparr>]\<rparr>)"
  using assms
  by (simp add: submit_puzzle_guess_def submit_puzzle_def PuzzleModal_on_submit_stores)

text \<open>
  C9 (amended). Submitting a guess is gated at the button, not at the form. The form opens
  exactly when the user who presses "Submit Puzzle" is the slot holder of the view's box in
  the database of that moment; any other user, registered or not, is turned away and
  nothing changes. The form handler itself has no guard: on whatever database it finds,
  even one in which the slot has moved since the press, it appends the guess, with an
  attempt id greater than every attempt id the box has there, and 1 when the box has none,
  and changes nothing else.
\<close>

theorem puzzle_guess_submission:
  "((\<exists>aid. fst (submit_puzzle_guess s s' b u w1 w2 w3 t) = Inr aid) \<longleftrightarrow>
      (\<exists>sl. slot_state s b = Some sl \<and> slot_user_id sl = Some u)) \<and>
   (\<forall>e. fst (submit_puzzle_guess s s' b u w1 w2 w3 t) = Inl e \<longrightarrow>
      e = OnlySlotHolderCanSubmit \<and> snd (submit_puzzle_guess s s' b u w1 w2 w3 t) = s) \<and>
   (\<forall>aid. fst (submit_puzzle_guess s s' b u w1 w2 w3 t) = Inr aid \<longrightarrow>
      snd (submit_puzzle_guess s s' b u w1 w2 w3 t) =
        s'\<lparr>puzzle_attempts := puzzle_attempts s' @
             [\<lparr>pa_box_id = b, attempt_id = aid, pa_user_id = u,
               g1 = norm_word w1, g2 = norm_word w2, g3 = norm_word w3,
               pa_submitted_at_ms = t, checked = False, score_positions = 0\<rparr>]\<rparr> \<and>
      (\<forall>a\<in>set (puzzle_attempts s'). pa_box_id a = b \<longrightarrow> attempt_id a < aid) \<and>
      ((\<forall>a\<in>set (puzzle_attempts s'). pa_box_id a \<noteq> b) \<longrightarrow> aid = 1)) \<and>
   snd (PuzzleModal_on_submit s' b u w1 w2 w3 t) =
     s'\<lparr>puzzle_attempts := puzzle_attempts s' @
          [\<lparr>pa_box_id = b, attempt_id = fst (PuzzleModal_on_submit s' b u w1 w2 w3 t),
            pa_user_id = u, g1 = norm_word w1, g2 = norm_word w2, g3 = norm_word w3,
            pa_submitted_at_ms = t, checked = False, score_positions = 0\<rparr>]\<rparr> \<and>
   (\<forall>a\<in>set (puzzle_attempts s'). pa_box_id a = b \<longrightarrow>
      attempt_id a < fst (PuzzleModal_on_submit s' b u w1 w2 w3 t)) \<and>
   ((\<forall>a\<in>set (puzzle_attempts s'). pa_box_id a \<noteq> b) \<longrightarrow>
      fst (PuzzleModal_on_submit s' b u w1 w2 w3 t) = 1)"
proof -
  have lt: "\<forall>a\<in>set (puzzle_attempts s'). pa_box_id a = b \<longrightarrow> attempt_id a < max_attempt_id s' b + 1"
    using max_attempt_id_upper [of _ s' b] by fastforce
  have one: "(\<forall>a\<in>set (puzzle_attempts s'). pa_box_id a \<noteq> b) \<longrightarrow> max_attempt_id s' b + 1 = 1"
    using max_attempt_id_empty [of s' b] by simp
  have form: "snd (PuzzleModal_on_submit s' b u w1 w2 w3 t) =
     s'\<lparr>puzzle_attempts := puzzle_attempts s' @
          [\<lparr>pa_box_id = b, attempt_id = fst (PuzzleModal_on_submit s' b u w1 w2 w3 t),
            pa_user_id = u, g1 = norm_word w1, g2 = norm_word w2, g3 = norm_word w3,
            pa_submitted_at_ms = t, checked = False, score_positions = 0\<rparr>]\<rparr> \<and>
   (\<forall>a\<in>set (puzzle_attempts s'). pa_box_id a = b \<longrightarrow>
      attempt_id a < fst (PuzzleModal_on_submit s' b u w1 w2 w3 t)) \<and>
   ((\<forall>a\<in>set (puzzle_attempts s'). pa_box_id a \<noteq> b) \<longrightarrow>
      fst (PuzzleModal_on_submit s' b u w1 w2 w3 t) = 1)"
    using lt one unfolding PuzzleModal_on_submit_stores by simp
  have path: "((\<exists>aid. fst (submit_puzzle_guess s s' b u w1 w2 w3 t) = Inr aid) \<longleftrightarrow>
      (\<exists>sl. slot_state s b = Some sl \<and> slot_user_id sl = Some u)) \<and>
   (\<forall>e. fst (submit_puzzle_guess s s' b u w1 w2 w3 t) = Inl e \<longrightarrow>
      e = OnlySlotHolderCanSubmit \<and> snd (submit_puzzle_guess s s' b u w1 w2 w3 t) = s) \<and>
   (\<forall>aid. fst (submit_puzzle_guess s s' b u w1 w2 w3 t) = Inr aid \<longrightarrow>
      snd (submit_puzzle_guess s s' b u w1 w2 w3 t) =
        s'\<lparr>puzzle_attempts := puzzle_attempts s' @
             [\<lparr>pa_box_id = b, attempt_id = aid, pa_user_id = u,
               g1 = norm_word w1, g2 = norm_word w2, g3 = norm_word w3,
               pa_submitted_at_ms = t, checked = False, score_positions = 0\<rparr>]\<rparr> \<and>
      (\<forall>a\<in>set (puzzle_attempts s'). pa_box_id a = b \<longrightarrow> attempt_id a < aid) \<and>
      ((\<forall>a\<in>set (puzzle_attempts s'). pa_box_id a \<noteq> b) \<longrightarrow> aid = 1))"
  proof (cases "\<exists>sl. slot_state s b = Some sl \<and> slot_user_id sl = Some u")
    case False
    from submit_puzzle_guess_rejected [OF False] False show ?thesis by simp
  next
    case True
    then obtain sl where sl: "slot_state s b = Some sl" "slot_user_id sl = Some u" by blast
    note eq = submit_puzzle_guess_accepted [OF sl, of s' w1 w2 w3 t]
    from True lt one show ?thesis unfolding eq by simp
  qed
  show ?thesis
    using path form by (elim conjE, intro conjI) assumption+
qed

text \<open>The theorem at the puzzle example. User 25 holds the slot and presses the button,
  so the form opens. Before the form is submitted \<^verbatim>\<open>/wib check_puzzle\<close> moves the slot to
  user 23; the form is stored all the same, as attempt 6 of user 25, and the slot stays
  with user 23. The same path with no command in between stores attempt 6 as well.\<close>

theorem puzzle_guess_submission_witness:
  "slot_state puzzle_example 2 =
     Some \<lparr>slot_user_id = Some 25, turns_left = 1, pending_action = None, pending_msg_id = None\<rparr> \<and>
   slot_moved_example = snd (check_puzzle puzzle_example True) \<and>
   slot_state slot_moved_example 2 =
     Some \<lparr>slot_user_id = Some 23, turns_left = 0, pending_action = None, pending_msg_id = None\<rparr> \<and>
   map attempt_id (puzzle_attempts slot_moved_example) = [1, 2, 3, 4, 5] \<and>
   fst (submit_puzzle_guess puzzle_example slot_moved_example 2 25
          ''one'' ''fine'' ''afternoon'' 11) = Inr 6 \<and>
   snd (submit_puzzle_guess puzzle_example slot_moved_example 2 25
          ''one'' ''fine'' ''afternoon'' 11) =
     slot_moved_example\<lparr>puzzle_attempts := puzzle_attempts slot_moved_example @
       [\<lparr>pa_box_id = 2, attempt_id = 6, pa_user_id = 25,
         g1 = norm_word ''one'', g2 = norm_word ''fine'', g3 = norm_word ''afternoon'',
         pa_submitted_at_ms = 11, checked = False, score_positions = 0\<rparr>]\<rparr> \<and>
   fst (submit_puzzle_guess puzzle_example puzzle_example 2 25
          ''one'' ''fine'' ''afternoon'' 11) = Inr 6"
proof -
  have h: "slot_state puzzle_example 2 =
     Some \<lparr>slot_user_id = Some 25, turns_left = 1, pending_action = None, pending_msg_id = None\<rparr>"
    by (simp add: puzzle_example_def)
  have m: "slot_moved_example = snd (check_puzzle puzzle_example True)"
    by (simp add: check_puzzle_def latest_unchecked_def next_closest_puzzle_attempt_def
        phrase_words_def guess_def mark_checked_def update_slot_def slot_moved_example_def
        puzzle_example_def)
  have h': "slot_state slot_moved_example 2 =
     Some \<lparr>slot_user_id = Some 23, turns_left = 0, pending_action = None, pending_msg_id = None\<rparr>"
    by (simp add: slot_moved_example_def)
  have l: "map attempt_id (puzzle_attempts slot_moved_example) = [1, 2, 3, 4, 5]"
    by (simp add: slot_moved_example_def mark_checked_def puzzle_example_def)
  have a: "fst (submit_puzzle_guess puzzle_example slot_moved_example 2 25
                  ''one'' ''fine'' ''afternoon'' 11) = Inr 6"
    by (simp add: submit_puzzle_guess_def submit_puzzle_def PuzzleModal_on_submit_def
        max_attempt_id_def slot_moved_example_def mark_checked_def puzzle_example_def)
  have a': "fst (submit_puzzle_guess puzzle_example puzzle_example 2 25
                  ''one'' ''fine'' ''afternoon'' 11) = Inr 6"
    by (simp add: submit_puzzle_guess_def submit_puzzle_def PuzzleModal_on_submit_def
        max_attempt_id_def puzzle_example_def)
  from puzzle_guess_submission
    [of puzzle_example slot_moved_example 2 25 "''one''" "''fine''" "''afternoon''" 11] a
  have "snd (submit_puzzle_guess puzzle_example slot_moved_example 2 25
          ''one'' ''fine'' ''afternoon'' 11) =
     slot_moved_example\<lparr>puzzle_attempts := puzzle_attempts slot_moved_example @
       [\<lparr>pa_box_id = 2, attempt_id = 6, pa_user_id = 25,
         g1 = norm_word ''one'', g2 = norm_word ''fine'', g3 = norm_word ''afternoon'',
         pa_submitted_at_ms = 11, checked = False, score_positions = 0\<rparr>]\<rparr>"
    by blast
  with h m h' l a a' show ?thesis by (simp only: simp_thms)
qed

text \<open>Against C9 as the specification states it: user 22 is a registered participant,
  not eliminated, and box 2 is the current box, but user 25 holds the slot: the press of
  user 22 is turned away, no form opens and no attempt is recorded.\<close>

theorem puzzle_guess_non_holder_counterexample:
  "participants puzzle_example 22 = Some \<lparr>display_name = ''B'', eliminated = False\<rparr> \<and>
   map_option current_box (sessions puzzle_example) = Some 2 \<and>
   submit_puzzle puzzle_example 2 22 = (Inl OnlySlotHolderCanSubmit, puzzle_example) \<and>
   submit_puzzle_guess puzzle_example puzzle_example 2 22 ''ONE'' ''FINE'' ''AFTERNOON'' 11 =
     (Inl OnlySlotHolderCanSubmit, puzzle_example)"
  by (simp add: submit_puzzle_guess_def submit_puzzle_def puzzle_example_def)

text \<open>
  C10 (amended). No guess is turned away for what its words normalise to: whether a guess
  is accepted does not depend on its words, and an accepted guess is stored with each word
  normalised, whatever the result, the empty string included.
\<close>

theorem puzzle_guess_words_not_validated:
  "((\<exists>aid. fst (submit_puzzle_guess s s' b u w1 w2 w3 t) = Inr aid) \<longleftrightarrow>
    (\<exists>aid. fst (submit_puzzle_guess s s' b u v1 v2 v3 t) = Inr aid)) \<and>
   (\<forall>aid. fst (submit_puzzle_guess s s' b u w1 w2 w3 t) = Inr aid \<longrightarrow>
      (\<exists>row. puzzle_attempts (snd (submit_puzzle_guess s s' b u w1 w2 w3 t)) =
               puzzle_attempts s' @ [row] \<and>
             g1 row = norm_word w1 \<and> g2 row = norm_word w2 \<and> g3 row = norm_word w3))"
proof (cases "\<exists>sl. slot_state s b = Some sl \<and> slot_user_id sl = Some u")
  case False
  from submit_puzzle_guess_rejected [OF False] show ?thesis by simp
next
  case True
  then obtain sl where sl: "slot_state s b = Some sl" "slot_user_id sl = Some u" by blast
  show ?thesis
    unfolding submit_puzzle_guess_accepted [OF sl] by simp
qed

text \<open>The theorem at the puzzle example, with no command between button and form: the
  slot holder's guess of three blanks for the first word is accepted as the guess ONE FINE
  AFTERNOON is, and stored with an empty first word.\<close>

theorem puzzle_guess_words_not_validated_witness:
  "fst (submit_puzzle_guess puzzle_example puzzle_example 2 25
          ''ONE'' ''FINE'' ''AFTERNOON'' 11) = Inr 6 \<and>
   (\<exists>aid. fst (submit_puzzle_guess puzzle_example puzzle_example 2 25
                 ''   '' ''fine'' ''afternoon'' 11) = Inr aid) \<and>
   (\<exists>row. puzzle_attempts
            (snd (submit_puzzle_guess puzzle_example puzzle_example 2 25
                    ''   '' ''fine'' ''afternoon'' 11)) =
            puzzle_attempts puzzle_example @ [row] \<and> g1 row = [])"
proof -
  have a: "fst (submit_puzzle_guess puzzle_example puzzle_example 2 25
                  ''ONE'' ''FINE'' ''AFTERNOON'' 11) = Inr 6"
    by (simp add: submit_puzzle_guess_def submit_puzzle_def PuzzleModal_on_submit_def
        max_attempt_id_def puzzle_example_def)
  have n: "norm_word ''   '' = []" by code_simp
  note t = puzzle_guess_words_not_validated
    [of puzzle_example puzzle_example 2 25 "''   ''" "''fine''" "''afternoon''" 11
       "''ONE''" "''FINE''" "''AFTERNOON''"]
  from t a have b: "\<exists>aid. fst (submit_puzzle_guess puzzle_example puzzle_example 2 25
                              ''   '' ''fine'' ''afternoon'' 11) = Inr aid"
    by blast
  with t n have "\<exists>row. puzzle_attempts
            (snd (submit_puzzle_guess puzzle_example puzzle_example 2 25
                    ''   '' ''fine'' ''afternoon'' 11)) =
            puzzle_attempts puzzle_example @ [row] \<and> g1 row = []"
    by auto
  with a b show ?thesis by blast
qed

text \<open>Against C10 as the specification states it: the word \<^verbatim>\<open>!!!\<close> normalises to the
  empty string, and the slot holder's guess with it is accepted as attempt 6 and a row with
  an empty first word is created.\<close>

theorem puzzle_guess_empty_word_counterexample:
  "norm_word ''!!!'' = [] \<and>
   fst (submit_puzzle_guess puzzle_example puzzle_example 2 25
          ''!!!'' ''fine'' ''afternoon'' 11) = Inr 6 \<and>
   length (puzzle_attempts
     (snd (submit_puzzle_guess puzzle_example puzzle_example 2 25
             ''!!!'' ''fine'' ''afternoon'' 11))) =
     length (puzzle_attempts puzzle_example) + 1 \<and>
   g1 (last (puzzle_attempts
     (snd (submit_puzzle_guess puzzle_example puzzle_example 2 25
             ''!!!'' ''fine'' ''afternoon'' 11)))) = []"
proof -
  have n: "norm_word ''!!!'' = []" by code_simp
  show ?thesis
    by (simp add: n submit_puzzle_guess_def submit_puzzle_def PuzzleModal_on_submit_def
        max_attempt_id_def puzzle_example_def)
qed

subsection \<open>Opening a box\<close>

lemma open_box_rejected:
  "fst (open_box s owner u t) = Inl e \<Longrightarrow> snd (open_box s owner u t) = s"
  by (auto simp: open_box_def Let_def split: option.splits if_splits)

lemma open_box_not_ready:
  assumes "sessions s = Some sess" and "solved_attempts s (current_box sess) = []"
  shows "open_box s owner owner t = (Inl BoxNotReady, s)"
  using assms by (simp add: open_box_def)

lemma open_box_opened:
  assumes "fst (open_box s owner u t) = Inr r" and sess: "sessions s = Some sess"
  shows "\<exists>a\<in>set (solved_attempts s (current_box sess)).
           (\<forall>x\<in>set (solved_attempts s (current_box sess)). attempt_id x \<le> attempt_id a) \<and>
           r = (current_box sess, pa_user_id a) \<and>
           box_ownership (snd (open_box s owner u t)) (current_box sess) =
             Some \<lparr>owner_user_id = pa_user_id a, updated_at_ms = t\<rparr> \<and>
           sessions (snd (open_box s owner u t)) =
             Some (sess\<lparr>opened_boxes_count := opened_boxes_count sess + 1,
                        eliminations_unlocked :=
                          (3 \<le> opened_boxes_count sess + 1 \<or> eliminations_unlocked sess),
                        current_box := min 6 (current_box sess + 1)\<rparr>)"
proof -
  let ?b = "current_box sess"
  from assms have ne: "solved_attempts s ?b \<noteq> []"
    by (auto simp: open_box_def Let_def split: if_splits)
  from sort_key_head_least [OF ne, of "\<lambda>a. - attempt_id a"]
  obtain a ys where h: "sort_key (\<lambda>a. - attempt_id a) (solved_attempts s ?b) = a # ys"
    "a \<in> set (solved_attempts s ?b)"
    "\<forall>y\<in>set (solved_attempts s ?b). - attempt_id a \<le> - attempt_id y" by blast
  from assms ne h(1)
  have "r = (?b, pa_user_id a) \<and>
        box_ownership (snd (open_box s owner u t)) ?b =
          Some \<lparr>owner_user_id = pa_user_id a, updated_at_ms = t\<rparr> \<and>
        sessions (snd (open_box s owner u t)) =
          Some (sess\<lparr>opened_boxes_count := opened_boxes_count sess + 1,
                     eliminations_unlocked :=
                       (3 \<le> opened_boxes_count sess + 1 \<or> eliminations_unlocked sess),
                     current_box := min 6 (current_box sess + 1)\<rparr>)"
    by (auto simp: open_box_def Let_def split: option.splits if_splits)
  with h(2,3) show ?thesis by auto
qed

text \<open>
  C7. \<^verbatim>\<open>/wib open_box\<close> by the owner, in a session: when the current box has no checked
  attempt of score 3 the command replies that the box is not ready and changes nothing, as
  every failing call does. When it succeeds, such an attempt exists; the box's owner
  becomes the author of the one with the greatest attempt id, \<open>opened_boxes_count\<close> grows by
  one and \<open>current_box\<close> becomes \<open>min 6 (box + 1)\<close>.
\<close>

theorem open_box_gate:
  assumes "sessions s = Some sess"
  shows "(solved_attempts s (current_box sess) = [] \<longrightarrow>
            open_box s owner owner t = (Inl BoxNotReady, s)) \<and>
         (\<forall>e. fst (open_box s owner u t) = Inl e \<longrightarrow> snd (open_box s owner u t) = s) \<and>
         (\<forall>r. fst (open_box s owner u t) = Inr r \<longrightarrow>
            (\<exists>a\<in>set (solved_attempts s (current_box sess)).
               (\<forall>x\<in>set (solved_attempts s (current_box sess)). attempt_id x \<le> attempt_id a) \<and>
               r = (current_box sess, pa_user_id a) \<and>
               box_ownership (snd (open_box s owner u t)) (current_box sess) =
                 Some \<lparr>owner_user_id = pa_user_id a, updated_at_ms = t\<rparr> \<and>
               sessions (snd (open_box s owner u t)) =
                 Some (sess\<lparr>opened_boxes_count := opened_boxes_count sess + 1,
                            eliminations_unlocked :=
                              (3 \<le> opened_boxes_count sess + 1 \<or> eliminations_unlocked sess),
                            current_box := min 6 (current_box sess + 1)\<rparr>)))"
proof (intro conjI allI impI)
  assume "solved_attempts s (current_box sess) = []"
  from open_box_not_ready [OF assms this] show "open_box s owner owner t = (Inl BoxNotReady, s)" .
next
  fix e assume "fst (open_box s owner u t) = Inl e"
  then show "snd (open_box s owner u t) = s" by (rule open_box_rejected)
next
  fix r assume "fst (open_box s owner u t) = Inr r"
  from open_box_opened [OF this assms]
  show "\<exists>a\<in>set (solved_attempts s (current_box sess)).
               (\<forall>x\<in>set (solved_attempts s (current_box sess)). attempt_id x \<le> attempt_id a) \<and>
               r = (current_box sess, pa_user_id a) \<and>
               box_ownership (snd (open_box s owner u t)) (current_box sess) =
                 Some \<lparr>owner_user_id = pa_user_id a, updated_at_ms = t\<rparr> \<and>
               sessions (snd (open_box s owner u t)) =
                 Some (sess\<lparr>opened_boxes_count := opened_boxes_count sess + 1,
                            eliminations_unlocked :=
                              (3 \<le> opened_boxes_count sess + 1 \<or> eliminations_unlocked sess),
                            current_box := min 6 (current_box sess + 1)\<rparr>)" .
qed

text \<open>The theorem at two examples: box 2, solved by user 23, is opened for user 23, the
  second box opened, and box 3 becomes current; the box of the puzzle example, which has no
  checked attempt of score 3, is not ready.\<close>

theorem open_box_gate_witness:
  "fst (open_box solved_example 1 1 1000) = Inr (2, 23) \<and>
   box_ownership (snd (open_box solved_example 1 1 1000)) 2 =
     Some \<lparr>owner_user_id = 23, updated_at_ms = 1000\<rparr> \<and>
   sessions (snd (open_box solved_example 1 1 1000)) =
     Some \<lparr>session_seed = 123456, is_locked = True, current_box = 3,
           opened_boxes_count = 2, eliminations_unlocked = False\<rparr> \<and>
   solved_attempts puzzle_example 2 = [] \<and>
   open_box puzzle_example 1 1 1000 = (Inl BoxNotReady, puzzle_example)"
proof -
  let ?sess = "\<lparr>session_seed = 123456, is_locked = True, current_box = 2,
                opened_boxes_count = 1, eliminations_unlocked = False\<rparr>"
  have h: "sessions solved_example = Some ?sess" "sessions puzzle_example = Some ?sess"
    by (simp_all add: solved_example_def puzzle_example_def)
  have a: "fst (open_box solved_example 1 1 1000) = Inr (2, 23)"
    by (simp add: open_box_def solved_attempts_def solved_example_def puzzle_example_def
        strip_def isspace_def)
  have e: "solved_attempts puzzle_example 2 = []"
    by (simp add: solved_attempts_def puzzle_example_def)
  from open_box_gate [OF h(1), of 1 1000 1] a
  have "\<exists>a\<in>set (solved_attempts solved_example 2).
           (2, 23) = (current_box ?sess, pa_user_id a) \<and>
           box_ownership (snd (open_box solved_example 1 1 1000)) (current_box ?sess) =
             Some \<lparr>owner_user_id = pa_user_id a, updated_at_ms = 1000\<rparr> \<and>
           sessions (snd (open_box solved_example 1 1 1000)) =
             Some (?sess\<lparr>opened_boxes_count := opened_boxes_count ?sess + 1,
                         eliminations_unlocked :=
                           (3 \<le> opened_boxes_count ?sess + 1 \<or> eliminations_unlocked ?sess),
                         current_box := min 6 (current_box ?sess + 1)\<rparr>)"
    by fastforce
  then have "box_ownership (snd (open_box solved_example 1 1 1000)) 2 =
        Some \<lparr>owner_user_id = 23, updated_at_ms = 1000\<rparr> \<and>
      sessions (snd (open_box solved_example 1 1 1000)) =
        Some \<lparr>session_seed = 123456, is_locked = True, current_box = 3,
              opened_boxes_count = 2, eliminations_unlocked = False\<rparr>"
    by auto
  moreover from open_box_gate [OF h(2), of 1 1000 1] e
  have "open_box puzzle_example 1 1 1000 = (Inl BoxNotReady, puzzle_example)" by simp
  ultimately show ?thesis using a e by blast
qed

text \<open>
  C8, on the code: the mega box is opened by the owner at time 1000, which makes six boxes
  opened and leaves box 6 current. The same command at time 2000 succeeds again: it counts
  a seventh opened box and rewrites the ownership row of box 6.
\<close>

theorem open_box_again_after_mega:
  "fst (open_box mega_example 1 1 1000) = Inr (6, 23) \<and>
   sessions (snd (open_box mega_example 1 1 1000)) =
     Some \<lparr>session_seed = 123456, is_locked = True, current_box = 6,
           opened_boxes_count = 6, eliminations_unlocked = True\<rparr> \<and>
   box_ownership (snd (open_box mega_example 1 1 1000)) 6 =
     Some \<lparr>owner_user_id = 23, updated_at_ms = 1000\<rparr> \<and>
   fst (open_box (snd (open_box mega_example 1 1 1000)) 1 1 2000) = Inr (6, 23) \<and>
   sessions (snd (open_box (snd (open_box mega_example 1 1 1000)) 1 1 2000)) =
     Some \<lparr>session_seed = 123456, is_locked = True, current_box = 6,
           opened_boxes_count = 7, eliminations_unlocked = True\<rparr> \<and>
   box_ownership (snd (open_box (snd (open_box mega_example 1 1 1000)) 1 1 2000)) 6 =
     Some \<lparr>owner_user_id = 23, updated_at_ms = 2000\<rparr>"
proof -
  have first: "open_box mega_example 1 1 1000 =
      (Inr (6, 23),
       mega_example\<lparr>box_ownership := [6 \<mapsto> \<lparr>owner_user_id = 23, updated_at_ms = 1000\<rparr>],
         sessions := Some \<lparr>session_seed = 123456, is_locked = True, current_box = 6,
                           opened_boxes_count = 6, eliminations_unlocked = True\<rparr>\<rparr>)"
    by (simp add: open_box_def solved_attempts_def mega_example_def strip_def isspace_def)
  show ?thesis
    unfolding first
    by (simp add: open_box_def solved_attempts_def mega_example_def strip_def isspace_def)
qed


subsection \<open>The content generators\<close>

text \<open>The generators use the library only through the draws of a generator they seed
  themselves: two libraries with the same draws give the same results.\<close>

lemma choice_same: "randbelow R = randbelow R' \<Longrightarrow> choice R g xs = choice R' g xs"
  by (simp add: choice_def)

lemma randint_same: "randbelow R = randbelow R' \<Longrightarrow> randint R g a b = randint R' g a b"
  by (simp add: randint_def)

lemma choices1_same:
  "weighted_index R = weighted_index R' \<Longrightarrow> choices1 R g p w = choices1 R' g p w"
  by (simp add: choices1_def)

lemma shuffle_from_same:
  assumes "randbelow R = randbelow R'"
  shows "shuffle_from R i x g = shuffle_from R' i x g"
proof (induction i arbitrary: x g)
  case 0
  show ?case by simp
next
  case (Suc i)
  show ?case
    by (simp only: shuffle_from.simps assms Let_def) (simp only: Suc.IH)
qed

lemma shuffle_same:
  assumes "randbelow R = randbelow R'"
  shows "shuffle R x g = shuffle R' x g"
  by (simp only: shuffle_def shuffle_from_same [OF assms])

lemma draw_cards_same:
  assumes "randbelow R = randbelow R'" and "weighted_index R = weighted_index R'"
  shows "draw_cards R n tags ws cards g = draw_cards R' n tags ws cards g"
proof (induction n arbitrary: cards g)
  case 0
  show ?case by simp
next
  case (Suc n)
  have c: "\<And>g p w. choices1 R g (p :: tag list) w = choices1 R' g p w"
    "\<And>g xs. choice R g (xs :: word_ref list) = choice R' g xs"
    by (rule choices1_same [OF assms(2)], rule choice_same [OF assms(1)])
  show ?case
    by (simp only: draw_cards.simps c Let_def) (simp only: Suc.IH)
qed

lemma redraw_Some_same:
  assumes "redraw R values v g = Some y" and "randbelow R = randbelow R'"
  shows "redraw R' values v g = Some y"
proof -
  have "randbelow R = randbelow R' \<longrightarrow> redraw R' values v g = Some y"
  proof (rule redraw.raw_induct
      [where P = "\<lambda>R values v g y. randbelow R = randbelow R' \<longrightarrow> redraw R' values v g = Some y",
        OF _ assms(1)])
    fix rd :: "'a rng \<Rightarrow> int list \<Rightarrow> int \<Rightarrow> 'a \<Rightarrow> (int \<times> 'a) option"
      and R :: "'a rng" and vals v g and y :: "int \<times> 'a"
    assume IH: "\<And>R vals v g y. rd R vals v g = Some y \<Longrightarrow>
        randbelow R = randbelow R' \<longrightarrow> redraw R' vals v g = Some y"
      and step: "(if v \<in> set vals
                  then rd R vals (fst (randint R g 10 99)) (snd (randint R g 10 99))
                  else Some (v, g)) = Some y"
    show "randbelow R = randbelow R' \<longrightarrow> redraw R' vals v g = Some y"
    proof
      assume same: "randbelow R = randbelow R'"
      show "redraw R' vals v g = Some y"
      proof (cases "v \<in> set vals")
        case True
        with step have "rd R vals (fst (randint R g 10 99)) (snd (randint R g 10 99)) = Some y"
          by simp
        from IH [OF this] same
        have "redraw R' vals (fst (randint R g 10 99)) (snd (randint R g 10 99)) = Some y"
          by simp
        with True randint_same [OF same, of g 10 99] show ?thesis
          by (subst redraw.simps) simp
      next
        case False
        with step show ?thesis by (subst redraw.simps) simp
      qed
    qed
  qed
  with assms(2) show ?thesis by simp
qed

lemma redraw_same:
  assumes "randbelow R = randbelow R'"
  shows "redraw R values v g = redraw R' values v g"
proof (cases "redraw R values v g")
  case (Some y)
  from redraw_Some_same [OF this assms] Some show ?thesis by simp
next
  case None
  show ?thesis
  proof (cases "redraw R' values v g")
    case (Some y)
    from redraw_Some_same [OF this assms [symmetric]] None show ?thesis by simp
  next
    case n: None
    with None show ?thesis by simp
  qed
qed

lemma draw_values_same:
  assumes "randbelow R = randbelow R'"
  shows "draw_values R n vals g = draw_values R' n vals g"
proof (induction n arbitrary: vals g)
  case 0
  show ?case by simp
next
  case (Suc n)
  show ?case
  proof (cases "redraw R' vals (fst (randint R' g 10 99)) (snd (randint R' g 10 99))")
    case None
    then show ?thesis
      by (simp only: draw_values.simps randint_same [OF assms] redraw_same [OF assms]
          option.case)
  next
    case (Some p)
    obtain v g' where p: "p = (v, g')" by (cases p)
    from Some show ?thesis
      by (simp only: draw_values.simps randint_same [OF assms] redraw_same [OF assms]
          p option.case prod.case Suc.IH)
  qed
qed

lemma gen_numeric_question_same:
  assumes "randbelow R = randbelow R'"
    and "Random R (seed * 100 + box_id * 7 + player_count) =
         Random R' (seed * 100 + box_id * 7 + player_count)"
  shows "gen_numeric_question R seed box_id player_count =
         gen_numeric_question R' seed box_id player_count"
  unfolding gen_numeric_question_def assms(2)
  by (simp only: choice_same [OF assms(1)] randint_same [OF assms(1)])

lemma gen_order_question_same:
  assumes "randbelow R = randbelow R'"
    and "Random R (seed * 200 + box_id * 19) = Random R' (seed * 200 + box_id * 19)"
  shows "gen_order_question R seed box_id = gen_order_question R' seed box_id"
  unfolding gen_order_question_def assms(2)
  by (simp only: choice_same [OF assms(1)] draw_values_same [OF assms(1)])

lemma build_deck_same:
  assumes "randbelow R = randbelow R'" and "weighted_index R = weighted_index R'"
    and "Random R (seed * 300 + box_id * 31) = Random R' (seed * 300 + box_id * 31)"
  shows "build_deck R seed box_id = build_deck R' seed box_id"
  unfolding build_deck_def assms(3)
  by (simp only: choice_same [OF assms(1)] draw_cards_same [OF assms(1,2)])

lemma gen_phrase_and_deck_same:
  assumes "randbelow R = randbelow R'" and "weighted_index R = weighted_index R'"
    and "Random R (seed * 300 + box_id * 31) = Random R' (seed * 300 + box_id * 31)"
  shows "gen_phrase_and_deck R seed box_id = gen_phrase_and_deck R' seed box_id"
  unfolding gen_phrase_and_deck_def
  by (simp only: build_deck_same [OF assms] shuffle_same [OF assms(1)])

text \<open>
  C5. The content generators are deterministic. Two runs with the same seed, box, salt
  and player count give the same numeric question (text and answer), the same ordering
  puzzle (prompt, items and correct permutation) and the same phrase and deck (composition
  and order). The only thing a run takes from outside its arguments is Python's generator
  class, and of that only the draws and the three generators seeded with
  \<open>(seed + salt) * 100 + box * 7 + players\<close>, \<open>(seed + salt) * 200 + box * 19\<close> and
  \<open>seed * 300 + box * 31\<close>: the two runs may take it as \<open>R\<close> and \<open>R'\<close>, alike in these.
\<close>

theorem content_generation_deterministic:
  assumes "seed = seed'" and "box_id = box_id'" and "salt = salt'"
    and "player_count = player_count'"
    and "randbelow R = randbelow R'" and "weighted_index R = weighted_index R'"
    and "Random R ((seed + salt) * 100 + box_id * 7 + player_count) =
         Random R' ((seed + salt) * 100 + box_id * 7 + player_count)"
    and "Random R ((seed + salt) * 200 + box_id * 19) =
         Random R' ((seed + salt) * 200 + box_id * 19)"
    and "Random R (seed * 300 + box_id * 31) = Random R' (seed * 300 + box_id * 31)"
  shows "gen_numeric_question R (seed + salt) box_id player_count =
           gen_numeric_question R' (seed' + salt') box_id' player_count' \<and>
         gen_order_question R (seed + salt) box_id =
           gen_order_question R' (seed' + salt') box_id' \<and>
         gen_phrase_and_deck R seed box_id = gen_phrase_and_deck R' seed' box_id' \<and>
         ContentGenerator R seed box_id salt player_count =
           ContentGenerator R' seed' box_id' salt' player_count'"
proof -
  note n = gen_numeric_question_same [OF assms(5,7)]
  note q = gen_order_question_same [OF assms(5,8)]
  note d = gen_phrase_and_deck_same [OF assms(5,6,9)]
  from n q d show ?thesis
    unfolding ContentGenerator_def assms(1-4) [symmetric] by simp
qed

text \<open>The theorem with the counting generator in both runs, for seed 123456 and four
  players: both runs give the answer 46 for box 1, and the phrase of the mega box is QUIET
  DARK MOONLIGHT.\<close>

theorem content_generation_deterministic_witness:
  "ContentGenerator counter_rng 123456 1 0 4 = ContentGenerator counter_rng 123456 1 0 4 \<and>
   answer (ContentGenerator counter_rng 123456 1 0 4) = 46 \<and>
   phrase (ContentGenerator counter_rng 123456 6 0 4) = (''QUIET'', ''DARK'', ''MOONLIGHT'')"
proof -
  have a: "snd (gen_numeric_question counter_rng 123456 1 4) = 46"
    by (simp add: gen_numeric_question_def choice_def randint_def counter_rng_def
        NUMERIC_TEMPLATES_def template_text_def)
  have p: "fst (gen_phrase_and_deck counter_rng 123456 6) = (''QUIET'', ''DARK'', ''MOONLIGHT'')"
    by (simp add: gen_phrase_and_deck_def build_deck_def choice_def counter_rng_def
        WORD_BANK_1_def WORD_BANK_2_def WORD_BANK_3_def split: prod.splits)
  from content_generation_deterministic
    [of 123456 123456 1 1 0 0 4 4 counter_rng counter_rng, OF refl refl refl refl refl refl refl refl refl]
  have "ContentGenerator counter_rng 123456 1 0 4 = ContentGenerator counter_rng 123456 1 0 4"
    by blast
  with a p show ?thesis by (simp add: ContentGenerator_def)
qed

subsection \<open>Where the random draws come from\<close>

lemma bucket_less: "ws \<noteq> [] \<Longrightarrow> bucket ws r < length ws"
  by (induction ws r rule: bucket.induct) auto

lemma rng_contract_counter_rng: "rng_contract counter_rng"
  by (simp add: rng_contract_def counter_rng_def bucket_less)

lemma shuffle_from_mset:
  "rng_contract R \<Longrightarrow> i < length x \<Longrightarrow> mset (fst (shuffle_from R i x g)) = mset x"
proof (induction i arbitrary: x g)
  case 0
  show ?case by simp
next
  case (Suc i)
  let ?j = "fst (randbelow R g (Suc i + 1))"
  from Suc.prems(1) have "?j < Suc i + 1" by (simp add: rng_contract_def)
  with Suc.prems(2) have j: "?j < length x" by simp
  have "mset (x[Suc i := x ! ?j, ?j := x ! Suc i]) = mset x"
    using j Suc.prems(2) by (rule mset_swap)
  moreover have "i < length (x[Suc i := x ! ?j, ?j := x ! Suc i])" using Suc.prems(2) by simp
  ultimately show ?case using Suc.IH [OF Suc.prems(1)] by (simp add: Let_def)
qed

lemma shuffle_mset: "rng_contract R \<Longrightarrow> mset (fst (shuffle R x g)) = mset x"
proof (cases x)
  case Nil
  then show ?thesis by (simp add: shuffle_def)
next
  case (Cons a as)
  assume "rng_contract R"
  from shuffle_from_mset [OF this, of "length x - 1" x g] Cons show ?thesis
    by (simp add: shuffle_def)
qed

lemma wildcard_effects_member:
  "d < length (wildcard_effects b) \<Longrightarrow>
     (b \<noteq> 6 \<longrightarrow> wildcard_effects b ! d \<in> {PASS, STEAL, BONUS_TURN}) \<and>
     (b = 6 \<longrightarrow> wildcard_effects b ! d \<in> {PASS, STEAL, BONUS_TURN, DONATE})"
  by (auto simp: wildcard_effects_def nth_Cons' less_Suc_eq)

lemma card_effect_wildcard:
  "fst (card_effect s s1 b row c t d) = Inr (WildcardResolved e) \<Longrightarrow>
     d < length (wildcard_effects b) \<and> e = wildcard_effects b ! d"
  by (auto simp: card_effect_def Let_def split: if_splits)

text \<open>
  C6 (amended). The deck is shuffled with the generator seeded from seed and box
  (\<open>seed * 300 + box * 31\<close>), in the state the deck's own draws leave it in, and under the
  library's promise the shuffled deck is a rearrangement of the deck built. The wildcard
  is resolved by a draw of the process-wide generator instead: an accepted reveal of a
  wildcard resolves to the entry of the effect list at the index drawn, one of PASS, STEAL,
  BONUS_TURN when the current box is not box 6, and one of PASS, STEAL, BONUS_TURN, DONATE
  when it is; the effect is a function of the state and of that draw.
\<close>

theorem random_draw_sources:
  "(\<forall>e. fst (CardButton_callback s u i d) = Inr (WildcardResolved e) \<longrightarrow>
      (\<exists>sess. sessions s = Some sess \<and>
         d < length (wildcard_effects (current_box sess)) \<and>
         e = wildcard_effects (current_box sess) ! d \<and>
         (current_box sess \<noteq> 6 \<longrightarrow> e \<in> {PASS, STEAL, BONUS_TURN}) \<and>
         (current_box sess = 6 \<longrightarrow> e \<in> {PASS, STEAL, BONUS_TURN, DONATE}))) \<and>
   snd (gen_phrase_and_deck R seed box_id) =
     fst (shuffle R (fst (snd (build_deck R seed box_id))) (snd (snd (build_deck R seed box_id)))) \<and>
   (rng_contract R \<longrightarrow>
      mset (snd (gen_phrase_and_deck R seed box_id)) = mset (fst (snd (build_deck R seed box_id))))"
proof (intro conjI allI impI)
  fix e assume a: "fst (CardButton_callback s u i d) = Inr (WildcardResolved e)"
  from CardButton_callback_passes_gate [OF a]
  obtain sess :: session and sl :: slot and row :: box_secret where g: "sessions s = Some sess"
    and eq: "CardButton_callback s u i d =
             card_effect s
               (set_turns_left
                  (s\<lparr>box_secrets := (box_secrets s)(current_box sess \<mapsto>
                        row\<lparr>revealed_json := insert i (revealed_json row)\<rparr>)\<rparr>)
                  (current_box sess) (turns_left sl - 1))
               (current_box sess) row (deck_json row ! i) (turns_left sl - 1) d"
    by blast
  from a eq have "fst (card_effect s
               (set_turns_left
                  (s\<lparr>box_secrets := (box_secrets s)(current_box sess \<mapsto>
                        row\<lparr>revealed_json := insert i (revealed_json row)\<rparr>)\<rparr>)
                  (current_box sess) (turns_left sl - 1))
               (current_box sess) row (deck_json row ! i) (turns_left sl - 1) d) =
               Inr (WildcardResolved e)" by simp
  from card_effect_wildcard [OF this]
  have d: "d < length (wildcard_effects (current_box sess))"
    "e = wildcard_effects (current_box sess) ! d" by simp_all
  from wildcard_effects_member [OF d(1)] d g
  show "\<exists>sess. sessions s = Some sess \<and>
         d < length (wildcard_effects (current_box sess)) \<and>
         e = wildcard_effects (current_box sess) ! d \<and>
         (current_box sess \<noteq> 6 \<longrightarrow> e \<in> {PASS, STEAL, BONUS_TURN}) \<and>
         (current_box sess = 6 \<longrightarrow> e \<in> {PASS, STEAL, BONUS_TURN, DONATE})"
    by blast
next
  show sh: "snd (gen_phrase_and_deck R seed box_id) =
     fst (shuffle R (fst (snd (build_deck R seed box_id))) (snd (snd (build_deck R seed box_id))))"
    by (simp add: gen_phrase_and_deck_def split: prod.splits)
  assume "rng_contract R"
  from shuffle_mset [OF this] sh
  show "mset (snd (gen_phrase_and_deck R seed box_id)) = mset (fst (snd (build_deck R seed box_id)))"
    by simp
qed

text \<open>The theorem at the mega-box example: with the draw 3 the wildcard resolves to
  DONATE; and the deck of the mega box made with the counting generator is a rearrangement
  of the deck built.\<close>

theorem random_draw_sources_witness:
  "fst (CardButton_callback wildcard_example 1 0 3) = Inr (WildcardResolved DONATE) \<and>
   wildcard_effects 6 ! 3 = DONATE \<and>
   rng_contract counter_rng \<and>
   mset (snd (gen_phrase_and_deck counter_rng 123456 6)) =
     mset (fst (snd (build_deck counter_rng 123456 6)))"
proof -
  have a: "fst (CardButton_callback wildcard_example 1 0 3) = Inr (WildcardResolved DONATE)"
    by (simp add: CardButton_callback_def card_effect_def wildcard_example_def
        wildcard_effects_def set_turns_left_def set_pending_action_def)
  have s: "sessions wildcard_example =
      Some \<lparr>session_seed = 123456, is_locked = True, current_box = 6,
            opened_boxes_count = 5, eliminations_unlocked = True\<rparr>"
    by (simp add: wildcard_example_def)
  note t = random_draw_sources [of wildcard_example 1 0 3 counter_rng 123456 6]
  from t a s have "DONATE = wildcard_effects 6 ! 3" by auto
  moreover from t rng_contract_counter_rng
  have "mset (snd (gen_phrase_and_deck counter_rng 123456 6)) =
     mset (fst (snd (build_deck counter_rng 123456 6)))" by blast
  ultimately show ?thesis using a rng_contract_counter_rng by simp
qed

text \<open>Against C6 as the specification states it: on one and the same state the reveal of
  the wildcard resolves to PASS when the process-wide generator draws 0 and to BONUS_TURN
  when it draws 2; seed and box are the same in both runs.\<close>

theorem wildcard_two_runs_counterexample:
  "fst (CardButton_callback wildcard_example 1 0 0) = Inr (WildcardResolved PASS) \<and>
   fst (CardButton_callback wildcard_example 1 0 2) = Inr (WildcardResolved BONUS_TURN)"
  by (simp add: CardButton_callback_def card_effect_def wildcard_example_def
      wildcard_effects_def set_turns_left_def set_pending_action_def)


end
